theory Spec2Isabelle
  imports Main "HOL-Library.Multiset"
begin

section \<open>Data model\<close>

text \<open>
  The program keeps its reports as plain JavaScript values: whatever \<^verbatim>\<open>JSON.parse\<close>
  returns for the content of one \<^verbatim>\<open>localStorage\<close> key. A value is therefore modelled
  as JSON data. The payload of a number is left as a type parameter: no function of the
  program computes with numbers taken from the store. An object is the list of its
  properties in insertion order; a property read that finds nothing yields
  \<^verbatim>\<open>undefined\<close>, modelled as \<open>None\<close>.
\<close>

datatype 'n json =
    JNull
  | JBool bool
  | JNum 'n
  | JStr string
  | JArr "'n json list"
  | JObj "(string \<times> 'n json) list"

text \<open>
  What the program can throw, and what a rejected promise carries.
  \<open>QuotaExceededError\<close> is the exception of \<^verbatim>\<open>localStorage.setItem\<close> when the storage
  does not take the value.
\<close>

datatype js_error =
    SyntaxError
  | TypeError
  | Error string
  | ProgressEvent
  | QuotaExceededError

text \<open>
  The functions of the browser that the program calls and that are not part of it.
  \<open>JSON_parse\<close> returns \<open>None\<close> where \<^verbatim>\<open>JSON.parse\<close> throws a SyntaxError;
  \<open>Date_getTime x\<close> is the time value of \<^verbatim>\<open>new Date(x)\<close> in milliseconds for the value
  \<open>x\<close> of a property, \<open>None\<close> for an invalid date (time value NaN); \<open>toISOString t\<close> is
  \<^verbatim>\<open>new Date(t).toISOString()\<close> for a clock reading \<open>t\<close>; \<open>engine_message e\<close> is the
  \<^verbatim>\<open>message\<close> of an error that the engine itself throws.

  \<open>setItem_ok st k v\<close> tells whether a storage of content \<open>st\<close> takes the value \<open>v\<close>
  under the key \<open>k\<close>; where it does not, \<^verbatim>\<open>setItem\<close> throws and writes nothing.

  \<open>Number_toString\<close> is the text of a number and \<open>Number_truthy\<close> its truth value
  (false for \<open>0\<close> and NaN). \<open>toLocaleString\<close> and \<open>toLocaleDateString\<close> are the
  \<^verbatim>\<open>en-IN\<close> texts of a date, given as its time value (\<open>None\<close> for an invalid date).

  \<open>innerHTML_elements tag text\<close> lists the elements of the tree that the browser builds
  when \<open>text\<close> is assigned to the \<^verbatim>\<open>innerHTML\<close> of an element \<open>tag\<close>, in the order of the
  document; an element is given as its attributes, name and value.
\<close>

type_synonym element = "(string \<times> string) list"

record 'n host =
  JSON_parse :: "string \<Rightarrow> 'n json option"
  JSON_stringify :: "'n json \<Rightarrow> string"
  Date_getTime :: "'n json option \<Rightarrow> int option"
  toISOString :: "int \<Rightarrow> string"
  engine_message :: "js_error \<Rightarrow> string"
  setItem_ok :: "(string \<Rightarrow> string option) \<Rightarrow> string \<Rightarrow> string \<Rightarrow> bool"
  Number_toString :: "'n \<Rightarrow> string"
  Number_truthy :: "'n \<Rightarrow> bool"
  toLocaleString :: "int option \<Rightarrow> string"
  toLocaleDateString :: "int option \<Rightarrow> string"
  innerHTML_elements :: "string \<Rightarrow> string \<Rightarrow> element list"

text \<open>
  The state outside the page that the store functions read and write: the content of
  \<^verbatim>\<open>localStorage\<close> (a map from keys to strings) and the lines written with
  \<^verbatim>\<open>console.error\<close>.
\<close>

record world =
  localStorage :: "string \<Rightarrow> string option"
  console :: "string list"

section \<open>Statements that may throw\<close>

text \<open>
  A statement takes the world and returns the world it leaves, with either the value it
  produced or the error it threw.
\<close>

type_synonym 'a js = "world \<Rightarrow> (js_error + 'a) \<times> world"

definition js_return :: "'a \<Rightarrow> 'a js" where
  "js_return x = (\<lambda>w. (Inr x, w))"

definition js_throw :: "js_error \<Rightarrow> 'a js" where
  "js_throw e = (\<lambda>w. (Inl e, w))"

definition js_bind :: "'a js \<Rightarrow> ('a \<Rightarrow> 'b js) \<Rightarrow> 'b js" where
  "js_bind m f = (\<lambda>w. case m w of (Inl e, w') \<Rightarrow> (Inl e, w') | (Inr x, w') \<Rightarrow> f x w')"

definition js_try :: "'a js \<Rightarrow> (js_error \<Rightarrow> 'a js) \<Rightarrow> 'a js" where
  "js_try m handler = (\<lambda>w. case m w of (Inl e, w') \<Rightarrow> handler e w' | (Inr x, w') \<Rightarrow> (Inr x, w'))"

definition js_lift :: "js_error + 'a \<Rightarrow> 'a js" where
  "js_lift r = (\<lambda>w. (r, w))"

definition getItem :: "string \<Rightarrow> string option js" where
  "getItem k = (\<lambda>w. (Inr (localStorage w k), w))"

text \<open>
  \<^verbatim>\<open>localStorage.setItem(k, v)\<close>: the value is written, or the storage refuses it and
  the call throws with nothing written.
\<close>

definition setItem :: "'n host \<Rightarrow> string \<Rightarrow> string \<Rightarrow> unit js" where
  "setItem h k v =
     (\<lambda>w. if setItem_ok h (localStorage w) k v
          then (Inr (), w\<lparr>localStorage := (localStorage w)(k \<mapsto> v)\<rparr>)
          else (Inl QuotaExceededError, w))"

definition console_error :: "string \<Rightarrow> unit js" where
  "console_error msg = (\<lambda>w. (Inr (), w\<lparr>console := console w @ [msg]\<rparr>))"

text \<open>\<^verbatim>\<open>x || d\<close> for \<open>x\<close> a string or \<^verbatim>\<open>null\<close>: the empty string is falsy too.\<close>

definition or_else :: "string option \<Rightarrow> string \<Rightarrow> string" where
  "or_else x d = (case x of None \<Rightarrow> d | Some s \<Rightarrow> if s = [] then d else s)"

section \<open>Property access and array methods\<close>

text \<open>The own property \<open>k\<close> of a value; only objects have the properties the program reads.\<close>

fun prop_of :: "'n json \<Rightarrow> string \<Rightarrow> 'n json option" where
  "prop_of (JObj kvs) k = map_of kvs k"
| "prop_of _ k = None"

text \<open>\<^verbatim>\<open>r.k\<close>: reading a property of \<^verbatim>\<open>null\<close> throws a TypeError.\<close>

fun get_prop :: "'n json \<Rightarrow> string \<Rightarrow> js_error + 'n json option" where
  "get_prop JNull k = Inl TypeError"
| "get_prop v k = Inr (prop_of v k)"

text \<open>
  Writing property \<open>k\<close> of an object: an existing property keeps its place, a new one
  goes last.
\<close>

fun put_prop :: "string \<Rightarrow> 'n json \<Rightarrow> (string \<times> 'n json) list \<Rightarrow> (string \<times> 'n json) list" where
  "put_prop k v [] = [(k, v)]"
| "put_prop k v (p # ps) = (if fst p = k then (k, v) # ps else p # put_prop k v ps)"

text \<open>
  \<^verbatim>\<open>r.k = v\<close>: throws on \<^verbatim>\<open>null\<close>; on a primitive the write is dropped (the script is
  not in strict mode); on an array it adds a named property that is not an element and
  that \<^verbatim>\<open>JSON.stringify\<close> does not write. The value \<open>None\<close> is \<^verbatim>\<open>undefined\<close>: a property
  set to it reads as \<^verbatim>\<open>undefined\<close> and is left out by \<^verbatim>\<open>JSON.stringify\<close>, as one that
  the object does not have.
\<close>

fun set_prop :: "string \<Rightarrow> 'n json option \<Rightarrow> 'n json \<Rightarrow> js_error + 'n json" where
  "set_prop k (Some v) (JObj kvs) = Inr (JObj (put_prop k v kvs))"
| "set_prop k None (JObj kvs) = Inr (JObj (filter (\<lambda>p. fst p \<noteq> k) kvs))"
| "set_prop k v JNull = Inl TypeError"
| "set_prop k v x = Inr x"

text \<open>
  \<^verbatim>\<open>xs.findIndex(p)\<close>: the index of the first element on which \<open>p\<close> is true, \<open>-1\<close> when there
  is none; an error thrown by \<open>p\<close> ends the search.
\<close>

fun findIndex_from :: "int \<Rightarrow> ('a \<Rightarrow> js_error + bool) \<Rightarrow> 'a list \<Rightarrow> js_error + int" where
  "findIndex_from i p [] = Inr (-1)"
| "findIndex_from i p (x # xs) =
     (case p x of
        Inl e \<Rightarrow> Inl e
      | Inr b \<Rightarrow> if b then Inr i else findIndex_from (i + 1) p xs)"

text \<open>Only an array has the method; calling it on anything else is a TypeError.\<close>

fun findIndex :: "('n json \<Rightarrow> js_error + bool) \<Rightarrow> 'n json \<Rightarrow> js_error + int" where
  "findIndex p (JArr xs) = findIndex_from 0 p xs"
| "findIndex p _ = Inl TypeError"

fun push :: "'n json \<Rightarrow> 'n json \<Rightarrow> js_error + 'n json" where
  "push (JArr xs) x = Inr (JArr (xs @ [x]))"
| "push _ x = Inl TypeError"

text \<open>\<^verbatim>\<open>xs.filter(p)\<close>, with \<open>p\<close> called on the elements from left to right.\<close>

fun filter_js :: "('a \<Rightarrow> js_error + bool) \<Rightarrow> 'a list \<Rightarrow> js_error + 'a list" where
  "filter_js p [] = Inr []"
| "filter_js p (x # xs) =
     (case p x of
        Inl e \<Rightarrow> Inl e
      | Inr b \<Rightarrow>
          (case filter_js p xs of
             Inl e \<Rightarrow> Inl e
           | Inr ys \<Rightarrow> Inr (if b then x # ys else ys)))"

text \<open>\<^verbatim>\<open>r.k === s\<close> for a string \<open>s\<close>.\<close>

definition prop_is :: "string \<Rightarrow> string \<Rightarrow> 'n json \<Rightarrow> js_error + bool" where
  "prop_is k s r = (case get_prop r k of Inl e \<Rightarrow> Inl e | Inr v \<Rightarrow> Inr (v = Some (JStr s)))"

text \<open>
  \<^verbatim>\<open>r.k === x\<close> for \<open>x\<close> a string or \<^verbatim>\<open>undefined\<close>, which is what a \<^verbatim>\<open>dataset\<close> gives.
\<close>

definition prop_matches :: "string \<Rightarrow> string option \<Rightarrow> 'n json \<Rightarrow> js_error + bool" where
  "prop_matches k x r =
     (case get_prop r k of Inl e \<Rightarrow> Inl e | Inr v \<Rightarrow> Inr (v = map_option JStr x))"

text \<open>\<^verbatim>\<open>xs.join(sep)\<close> on texts.\<close>

fun join :: "string \<Rightarrow> string list \<Rightarrow> string" where
  "join sep [] = []"
| "join sep [x] = x"
| "join sep (x # y # ys) = x @ sep @ join sep (y # ys)"

section \<open>The report store\<close>

definition STORAGE_KEY :: string where
  "STORAGE_KEY = ''fixYourCityReports''"

definition JSON_parse_js :: "'n host \<Rightarrow> string \<Rightarrow> 'n json js" where
  "JSON_parse_js h s = js_lift (case JSON_parse h s of None \<Rightarrow> Inl SyntaxError | Some v \<Rightarrow> Inr v)"

definition getReports :: "'n host \<Rightarrow> 'n json js" where
  "getReports h =
     js_try
       (js_bind (getItem STORAGE_KEY) (\<lambda>item. JSON_parse_js h (or_else item ''[]'')))
       (\<lambda>e. js_bind (console_error ''Error parsing reports from localStorage'')
               (\<lambda>_. js_return (JArr [])))"

definition saveReports :: "'n host \<Rightarrow> 'n json \<Rightarrow> unit js" where
  "saveReports h reports = setItem h STORAGE_KEY (JSON_stringify h reports)"

definition addReport :: "'n host \<Rightarrow> 'n json \<Rightarrow> unit js" where
  "addReport h report =
     js_bind (getReports h) (\<lambda>reports.
     js_bind (js_lift (push reports report)) (\<lambda>reports'.
     saveReports h reports'))"

text \<open>
  \<^verbatim>\<open>reports[reportIndex].status = newStatus\<close>, for an index that \<^verbatim>\<open>findIndex\<close> returned.
\<close>

fun set_status_at :: "'n json \<Rightarrow> int \<Rightarrow> string option \<Rightarrow> js_error + 'n json" where
  "set_status_at (JArr xs) i s =
     (if 0 \<le> i \<and> i < int (length xs)
      then (case set_prop ''status'' (map_option JStr s) (xs ! nat i) of
              Inl e \<Rightarrow> Inl e
            | Inr x \<Rightarrow> Inr (JArr (xs[nat i := x])))
      else Inl TypeError)"
| "set_status_at _ i s = Inl TypeError"

text \<open>
  The two arguments are strings where the caller has them; the click handlers pass what
  the \<^verbatim>\<open>dataset\<close> of the clicked element holds, which is \<^verbatim>\<open>undefined\<close> for an
  attribute that the element lacks.
\<close>

definition updateReportStatus :: "'n host \<Rightarrow> string option \<Rightarrow> string option \<Rightarrow> unit js" where
  "updateReportStatus h reportId newStatus =
     js_bind (getReports h) (\<lambda>reports.
     js_bind (js_lift (findIndex (prop_matches ''id'' reportId) reports)) (\<lambda>reportIndex.
     if reportIndex \<noteq> -1
     then js_bind (js_lift (set_status_at reports reportIndex newStatus)) (\<lambda>reports'.
          saveReports h reports')
     else js_return ()))"

section \<open>Status styling\<close>

text \<open>The argument is the value of a \<^verbatim>\<open>status\<close> property, so it may be \<^verbatim>\<open>undefined\<close>.\<close>

definition getStatusClass :: "'n json option \<Rightarrow> string" where
  "getStatusClass status =
     (if status = Some (JStr ''Resolved'') then ''bg-green-100 text-green-800''
      else if status = Some (JStr ''In Progress'') then ''bg-yellow-100 text-yellow-800''
      else ''bg-red-100 text-red-800'')"

section \<open>Identifiers\<close>

text \<open>A whole number in decimal, as a template literal prints it.\<close>

definition digit_char :: "nat \<Rightarrow> char" where
  "digit_char n = ''0123456789abcdef'' ! n"

function show_digits :: "int \<Rightarrow> string" where
  "show_digits i =
     (if i < 10 then [digit_char (nat i)]
      else show_digits (i div 10) @ [digit_char (nat (i mod 10))])"
  by pat_completeness auto
termination
  by (relation "measure nat") auto

declare show_digits.simps [simp del]

definition show_int :: "int \<Rightarrow> string" where
  "show_int i = (if i < 0 then CHR ''-'' # show_digits (- i) else show_digits i)"

text \<open>
  \<^verbatim>\<open>generateId\<close> reads the clock and the random generator. \<open>now\<close> is the value of
  \<^verbatim>\<open>Date.now()\<close>, a whole number of milliseconds; \<open>random36\<close> is the text of
  \<^verbatim>\<open>Math.random().toString(36)\<close>, of which \<^verbatim>\<open>substring(2, 9)\<close> keeps at most seven
  characters after the first two.
\<close>

definition generateId :: "int \<Rightarrow> string \<Rightarrow> string" where
  "generateId now random36 = ''report_'' @ show_int now @ ''_'' @ take 7 (drop 2 random36)"

section \<open>Queries of the pages\<close>

text \<open>
  \<^verbatim>\<open>reports.filter(r => r.status === status)\<close>, as the explore page and the authority
  dashboard write it, and the same on \<^verbatim>\<open>category\<close>.
\<close>

definition filterByStatus :: "'n json list \<Rightarrow> string \<Rightarrow> js_error + 'n json list" where
  "filterByStatus reports status = filter_js (prop_is ''status'' status) reports"

definition filterByCategory :: "'n json list \<Rightarrow> string \<Rightarrow> js_error + 'n json list" where
  "filterByCategory reports category = filter_js (prop_is ''category'' category) reports"

text \<open>The choice that \<^verbatim>\<open>renderComplaintList\<close> makes from the sidebar's current filter.\<close>

definition filteredReports :: "string \<Rightarrow> 'n json list \<Rightarrow> js_error + 'n json list" where
  "filteredReports currentFilter allReports =
     (if currentFilter = ''All Reports'' then Inr allReports
      else if currentFilter \<in> set [''Pending'', ''In Progress'', ''Resolved'']
      then filterByStatus allReports currentFilter
      else filterByCategory allReports currentFilter)"

text \<open>
  The comparator \<^verbatim>\<open>(a, b) => new Date(b.submittedAt) - new Date(a.submittedAt)\<close>. The
  difference of two dates is a number, \<open>None\<close> standing for NaN.
\<close>

definition newestFirst :: "'n host \<Rightarrow> 'n json \<Rightarrow> 'n json \<Rightarrow> js_error + int option" where
  "newestFirst h a b =
     (case get_prop b ''submittedAt'' of
        Inl e \<Rightarrow> Inl e
      | Inr tb \<Rightarrow>
          (case get_prop a ''submittedAt'' of
             Inl e \<Rightarrow> Inl e
           | Inr ta \<Rightarrow>
               Inr (case (Date_getTime h tb, Date_getTime h ta) of
                      (Some x, Some y) \<Rightarrow> Some (x - y)
                    | _ \<Rightarrow> None)))"

text \<open>
  \<^verbatim>\<open>Array.prototype.sort\<close> with a comparator. The language fixes the result for a
  consistent comparator: the elements in the comparator's order, equal ones in their
  original order. An insertion sort from the right computes it; a NaN from the comparator
  counts as \<open>0\<close>.
\<close>

definition sort_compare :: "int option \<Rightarrow> int" where
  "sort_compare v = (case v of None \<Rightarrow> 0 | Some d \<Rightarrow> d)"

fun insert_js :: "('a \<Rightarrow> 'a \<Rightarrow> js_error + int option) \<Rightarrow> 'a \<Rightarrow> 'a list \<Rightarrow> js_error + 'a list" where
  "insert_js cmp x [] = Inr [x]"
| "insert_js cmp x (y # ys) =
     (case cmp x y of
        Inl e \<Rightarrow> Inl e
      | Inr v \<Rightarrow>
          if sort_compare v \<le> 0 then Inr (x # y # ys)
          else (case insert_js cmp x ys of Inl e \<Rightarrow> Inl e | Inr zs \<Rightarrow> Inr (y # zs)))"

fun sort_js :: "('a \<Rightarrow> 'a \<Rightarrow> js_error + int option) \<Rightarrow> 'a list \<Rightarrow> js_error + 'a list" where
  "sort_js cmp [] = Inr []"
| "sort_js cmp (x # xs) =
     (case sort_js cmp xs of Inl e \<Rightarrow> Inl e | Inr ys \<Rightarrow> insert_js cmp x ys)"

definition sortNewestFirst :: "'n host \<Rightarrow> 'n json list \<Rightarrow> js_error + 'n json list" where
  "sortNewestFirst h reports = sort_js (newestFirst h) reports"

text \<open>The time value that the comparator reads from a report.\<close>

definition submitted_time :: "'n host \<Rightarrow> 'n json \<Rightarrow> int option" where
  "submitted_time h r = Date_getTime h (prop_of r ''submittedAt'')"

section \<open>Submitting a report\<close>

datatype js_file = File string

record form =
  issue_category :: string
  location :: string
  description :: string
  photo_upload :: "js_file list"

record ui =
  submitBtn_disabled :: bool
  submitBtn_textContent :: string
  formMessage_textContent :: string
  formMessage_className :: string
  formMessage_hidden :: bool
  report_form :: form
  form_defaults :: form

text \<open>What one run of the submit handler reads from outside the page.\<close>

record submit_env =
  image_read :: "js_error + string"
  id_clock :: int
  id_random :: string
  submitted_clock :: int

datatype outcome = Succeeded | Failed js_error

definition error_message :: "'n host \<Rightarrow> js_error \<Rightarrow> string" where
  "error_message h e =
     (case e of
        Error m \<Rightarrow> m
      | ProgressEvent \<Rightarrow> ''undefined''
      | _ \<Rightarrow> engine_message h e)"

definition newReport :: "'n host \<Rightarrow> string \<Rightarrow> string \<Rightarrow> string \<Rightarrow> string \<Rightarrow> submit_env \<Rightarrow> 'n json" where
  "newReport h category loc descr imageData env =
     JObj [(''id'', JStr (generateId (id_clock env) (id_random env))),
           (''category'', JStr category),
           (''location'', JStr loc),
           (''description'', JStr descr),
           (''imageData'', JStr imageData),
           (''status'', JStr ''Pending''),
           (''submittedAt'', JStr (toISOString h (submitted_clock env)))]"

text \<open>The \<^verbatim>\<open>catch\<close> block of the handler.\<close>

definition show_failure :: "'n host \<Rightarrow> js_error \<Rightarrow> ui \<Rightarrow> ui" where
  "show_failure h e u =
     u\<lparr>formMessage_textContent := ''Error: '' @ error_message h e,
       formMessage_className := ''p-3 rounded-lg text-sm bg-red-100 text-red-800'',
       formMessage_hidden := False,
       submitBtn_disabled := False,
       submitBtn_textContent := ''Submit Report''\<rparr>"

definition show_success :: "ui \<Rightarrow> ui" where
  "show_success u =
     u\<lparr>formMessage_textContent := ''Report submitted successfully!'',
       formMessage_className := ''p-3 rounded-lg text-sm bg-green-100 text-green-800'',
       formMessage_hidden := False,
       submitBtn_disabled := False,
       submitBtn_textContent := ''Submit Report'',
       report_form := form_defaults u\<rparr>"

text \<open>The \<^verbatim>\<open>try\<close> block: the checks, the read of the image, the new report, the store.\<close>

definition submit_try :: "'n host \<Rightarrow> submit_env \<Rightarrow> form \<Rightarrow> unit js" where
  "submit_try h env f =
     (let category = issue_category f;
          loc = location f;
          descr = description f;
          photoFile = (case photo_upload f of [] \<Rightarrow> None | x # _ \<Rightarrow> Some x)
      in if category = [] \<or> loc = [] \<or> photoFile = None
         then js_throw (Error ''Please fill out all required fields and add a photo.'')
         else js_bind (js_lift (image_read env)) (\<lambda>imageData.
              addReport h (newReport h category loc descr imageData env)))"

text \<open>
  One run of the submit handler, from the click to the message it leaves. The handler
  waits once, for the read of the image; the world is the one it finds when it goes on,
  and the fields are the ones it read before waiting. The timer that closes the dialog
  two seconds after a success is not part of the run.
\<close>

definition submit_handler :: "'n host \<Rightarrow> submit_env \<Rightarrow> ui \<Rightarrow> world \<Rightarrow> outcome \<times> ui \<times> world" where
  "submit_handler h env u w =
     (let busy = u\<lparr>submitBtn_disabled := True,
                    submitBtn_textContent := ''Submitting...'',
                    formMessage_hidden := True\<rparr>
      in case submit_try h env (report_form busy) w of
           (Inr _, w') \<Rightarrow> (Succeeded, show_success busy, w')
         | (Inl e, w') \<Rightarrow> (Failed e, show_failure h e busy, w'))"

section \<open>The pages that change a status\<close>

text \<open>
  The text that a template literal puts in for a value: a string as it is, the other
  values by their \<^verbatim>\<open>toString\<close>. In the text of an array \<^verbatim>\<open>null\<close> is empty.
\<close>

fun to_text :: "'n host \<Rightarrow> 'n json \<Rightarrow> string" where
  "to_text h JNull = ''null''"
| "to_text h (JBool b) = (if b then ''true'' else ''false'')"
| "to_text h (JNum n) = Number_toString h n"
| "to_text h (JStr s) = s"
| "to_text h (JArr xs) = join '','' (map (\<lambda>x. if x = JNull then [] else to_text h x) xs)"
| "to_text h (JObj kvs) = ''[object Object]''"

definition text_of :: "'n host \<Rightarrow> 'n json option \<Rightarrow> string" where
  "text_of h v = (case v of None \<Rightarrow> ''undefined'' | Some x \<Rightarrow> to_text h x)"

fun truthy :: "'n host \<Rightarrow> 'n json option \<Rightarrow> bool" where
  "truthy h None = False"
| "truthy h (Some JNull) = False"
| "truthy h (Some (JBool b)) = b"
| "truthy h (Some (JNum n)) = Number_truthy h n"
| "truthy h (Some (JStr s)) = (s \<noteq> [])"
| "truthy h (Some (JArr xs)) = True"
| "truthy h (Some (JObj kvs)) = True"

text \<open>\<^verbatim>\<open>${x || 'd'}\<close> in a template literal.\<close>

definition or_text :: "'n host \<Rightarrow> 'n json option \<Rightarrow> string \<Rightarrow> string" where
  "or_text h x d = (if truthy h x then text_of h x else d)"

definition newline :: string where
  "newline = [CHR 0x0A]"

text \<open>
  The text that \<^verbatim>\<open>createComplaintCard\<close> assigns to the \<^verbatim>\<open>innerHTML\<close> of the card of a
  report, line by line as the template literal has it. The values of the report go into
  the text as they are, without escaping. A report that is \<^verbatim>\<open>null\<close> has no card: reading
  its \<^verbatim>\<open>submittedAt\<close> throws.
\<close>

definition card_html :: "'n host \<Rightarrow> 'n json \<Rightarrow> js_error + string" where
  \<open>card_html h report =
     (if report = JNull then Inl TypeError
      else
       (let formattedDate = toLocaleString h (Date_getTime h (prop_of report ''submittedAt''));
            statusClasses = ''px-3 py-1 inline-flex text-xs leading-5 font-semibold rounded-full ''
                            @ getStatusClass (prop_of report ''status'')
        in Inr (concat
         [newline, ''            <div class="flex items-center justify-between">'',
          newline, ''                <div class="flex items-center gap-x-3">'',
          newline, ''                    <span class="font-semibold text-gray-800">'', text_of h (prop_of report ''category''), ''</span>'',
          newline, ''                    <span class="'', statusClasses, ''">'', text_of h (prop_of report ''status''), ''</span>'',
          newline, ''                </div>'',
          newline, ''                <div class="text-sm text-gray-500">'',
          newline, ''                    Reported on: '', formattedDate,
          newline, ''                </div>'',
          newline, ''            </div>'',
          newline, ''            '',
          newline, ''            <p class="mt-4 text-gray-700">'', or_text h (prop_of report ''description'') ''No description provided.'', ''</p>'',
          newline, ''            '',
          newline, ''            <a href="'', text_of h (prop_of report ''imageData''), ''" target="_blank" rel="noopener noreferrer">'',
          newline, ''                <img src="'', text_of h (prop_of report ''imageData''), ''" alt="Evidence" style="width: 200px; margin-top: 10px; border-radius: 8px; cursor: pointer;">'',
          newline, ''            </a>'',
          newline, ''            '',
          newline, ''            <div class="mt-4 flex items-center justify-between">'',
          newline, ''                <div class="text-sm text-gray-600">'',
          newline, ''                    <p><strong>Location:</strong> '', or_text h (prop_of report ''location'') ''Not specified'', ''</p>'',
          newline, ''                </div>'',
          newline, ''                '',
          newline, ''                <div class="flex-shrink-0 space-x-2">'',
          newline, ''                    '', (if prop_of report ''status'' = Some (JStr ''Pending'')
         then concat
           [newline, ''                        <button data-id="'', text_of h (prop_of report ''id''), ''" data-status="In Progress" class="status-btn rounded-md bg-emerald-600 px-3 py-2 text-sm font-semibold text-white shadow-sm hover:bg-emerald-500">'',
            newline, ''                            Mark In Progress'',
            newline, ''                        </button>'']
         else []),
          newline, ''                    '', (if prop_of report ''status'' = Some (JStr ''In Progress'') \<or> prop_of report ''status'' = Some (JStr ''Pending'')
         then concat
           [newline, ''                        <button data-id="'', text_of h (prop_of report ''id''), ''" data-status="Resolved" class="status-btn rounded-md bg-green-600 px-3 py-2 text-sm font-semibold text-white shadow-sm hover:bg-green-500">'',
            newline, ''                            Mark Resolved'',
            newline, ''                        </button>'']
         else []),
          newline, ''                </div>'',
          newline, ''            </div>'',
          newline, ''        ''])))\<close>

text \<open>
  The text that \<^verbatim>\<open>initMyReports\<close> assigns to the \<^verbatim>\<open>innerHTML\<close> of the table row of a
  report.
\<close>

definition row_html :: "'n host \<Rightarrow> 'n json \<Rightarrow> js_error + string" where
  \<open>row_html h issue =
     (if issue = JNull then Inl TypeError
      else
       (let statusClasses = ''px-3 py-1 inline-flex text-xs leading-5 font-semibold rounded-full ''
                            @ getStatusClass (prop_of issue ''status'');
            submittedDate = toLocaleDateString h (Date_getTime h (prop_of issue ''submittedAt''));
            actionButton =
              (if prop_of issue ''status'' = Some (JStr ''Resolved'')
               then concat [''<button class="reopen-btn text-blue-600 hover:text-blue-800 hover:underline text-sm font-medium" data-id="'', text_of h (prop_of issue ''id''), ''">Reopen</button>'']
               else [])
        in Inr (concat
         [newline, ''            <td class="px-6 py-4 whitespace-nowrap text-sm text-gray-600">'', submittedDate, ''</td>'',
          newline, ''            <td class="px-6 py-4 whitespace-nowrap text-sm text-gray-600">'', text_of h (prop_of issue ''category''), ''</td>'',
          newline, ''            <td class="px-6 py-4 whitespace-nowrap text-sm text-gray-600">'', text_of h (prop_of issue ''location''), ''</td>'',
          newline, ''            <td class="px-6 py-4 whitespace-nowrap">'',
          newline, ''                <span class="'', statusClasses, ''">'', text_of h (prop_of issue ''status''), ''</span>'',
          newline, ''            </td>'',
          newline, ''            <td class="px-6 py-4 whitespace-nowrap text-sm font-medium">'',
          newline, ''                <button class="view-image-btn text-blue-600 hover:text-blue-800 hover:underline text-sm font-medium" data-src="'', text_of h (prop_of issue ''imageData''), ''">View</button>'',
          newline, ''            </td>'',
          newline, ''            <td class="px-6 py-4 whitespace-nowrap text-sm font-medium">'',
          newline, ''                '', actionButton,
          newline, ''            </td>'',
          newline, ''        ''])))\<close>

text \<open>
  The elements of a card and of a row: the element that the page creates, with the
  class it is given (the row has none), and the elements that the browser builds from
  the text.
\<close>

definition card_elements :: "'n host \<Rightarrow> 'n json \<Rightarrow> element list" where
  "card_elements h report =
     (case card_html h report of
        Inl e \<Rightarrow> []
      | Inr html \<Rightarrow>
          [(''class'', ''p-6 border-b border-gray-200 last:border-b-0'')]
          # innerHTML_elements h ''div'' html)"

definition row_elements :: "'n host \<Rightarrow> 'n json \<Rightarrow> element list" where
  "row_elements h issue =
     (case row_html h issue of
        Inl e \<Rightarrow> []
      | Inr html \<Rightarrow> [] # innerHTML_elements h ''tr'' html)"

text \<open>\<^verbatim>\<open>e.classList.contains(c)\<close>: the class attribute is a list of names between spaces.\<close>

definition is_space :: "char \<Rightarrow> bool" where
  "is_space c = (c \<in> set [CHR '' '', CHR 0x09, CHR 0x0A, CHR 0x0C, CHR 0x0D])"

fun words_of :: "string \<Rightarrow> string \<Rightarrow> string list" where
  "words_of acc [] = (if acc = [] then [] else [rev acc])"
| "words_of acc (c # cs) =
     (if is_space c then (if acc = [] then [] else [rev acc]) @ words_of [] cs
      else words_of (c # acc) cs)"

definition has_class :: "string \<Rightarrow> element \<Rightarrow> bool" where
  "has_class c e = (case map_of e ''class'' of None \<Rightarrow> False | Some v \<Rightarrow> c \<in> set (words_of [] v))"

text \<open>
  The click handler of the complaint list of the authority dashboard, for a click on the
  element \<open>target\<close>: the status of the report is changed, then the reports are loaded again
  for the new drawing of the list.
\<close>

definition status_click :: "'n host \<Rightarrow> element \<Rightarrow> unit js" where
  "status_click h target =
     (if has_class ''status-btn'' target
      then js_bind (updateReportStatus h (map_of target ''data-id'') (map_of target ''data-status''))
             (\<lambda>_. js_bind (getReports h) (\<lambda>allReports. js_return ()))
      else js_return ())"

text \<open>
  The click handler of the table of "My Reports". \<^verbatim>\<open>initMyReports\<close>, which draws the
  table again, starts by loading the reports. The handler first shows the image for a
  click on an element of class \<^verbatim>\<open>view-image-btn\<close>, which does not touch the store.
\<close>

definition reopen_click :: "'n host \<Rightarrow> element \<Rightarrow> unit js" where
  "reopen_click h target =
     (if has_class ''reopen-btn'' target
      then js_bind (updateReportStatus h (map_of target ''data-id'') (Some ''Pending''))
             (\<lambda>_. js_bind (getReports h) (\<lambda>reports. js_return ()))
      else js_return ())"

text \<open>
  What a user can do to the store: send the form, click on an element of the complaint
  list, click on an element of the table. \<^verbatim>\<open>initMyReports\<close> adds its click handler to the
  table each time it runs, so a click runs as many handlers as the table was drawn times;
  an error in one of them does not stop the next.
\<close>

datatype action =
    Submit submit_env ui
  | StatusClick element
  | ReopenClick nat element

text \<open>
  The elements that a page can show for the reports \<open>rs\<close> of the store: the elements
  \<open>static\<close> that the HTML file of the page has in the list or the table (the file is not
  part of the sources), and the elements of the card or of the row of each report. The
  dashboard shows the cards of the reports that pass its filter, so these are all the
  elements that it can show. A page draws its elements when it is loaded and again after
  each change it makes, so what it shows is drawn from the store as it is.
\<close>

fun offered :: "'n host \<Rightarrow> element list \<Rightarrow> 'n json list \<Rightarrow> action \<Rightarrow> bool" where
  "offered h static rs (Submit env u) = True"
| "offered h static rs (StatusClick target) =
     (target \<in> set (static @ concat (map (card_elements h) rs)))"
| "offered h static rs (ReopenClick n target) =
     (target \<in> set (static @ concat (map (row_elements h) rs)))"

fun perform :: "'n host \<Rightarrow> action \<Rightarrow> world \<Rightarrow> world" where
  "perform h (Submit env u) w = snd (snd (submit_handler h env u w))"
| "perform h (StatusClick target) w = snd (status_click h target w)"
| "perform h (ReopenClick n target) w = ((\<lambda>w. snd (reopen_click h target w)) ^^ n) w"

text \<open>
  The buttons that the templates write for a report, as the \<^verbatim>\<open>data-id\<close> and
  \<^verbatim>\<open>data-status\<close> that a click on them passes on: \<^verbatim>\<open>Mark In Progress\<close> on the card of a
  pending report, \<^verbatim>\<open>Mark Resolved\<close> on the card of a report that is pending or in
  progress, \<^verbatim>\<open>Reopen\<close> in the row of a resolved report.
\<close>

definition template_status_buttons :: "'n host \<Rightarrow> 'n json \<Rightarrow> (string option \<times> string option) list" where
  "template_status_buttons h report =
     (if report = JNull then []
      else
       (if prop_of report ''status'' = Some (JStr ''Pending'')
        then [(Some (text_of h (prop_of report ''id'')), Some ''In Progress'')] else []) @
       (if prop_of report ''status'' = Some (JStr ''In Progress'')
           \<or> prop_of report ''status'' = Some (JStr ''Pending'')
        then [(Some (text_of h (prop_of report ''id'')), Some ''Resolved'')] else []))"

definition template_reopen_buttons :: "'n host \<Rightarrow> 'n json \<Rightarrow> string option list" where
  "template_reopen_buttons h issue =
     (if issue = JNull then []
      else if prop_of issue ''status'' = Some (JStr ''Resolved'')
      then [Some (text_of h (prop_of issue ''id''))] else [])"

text \<open>
  A report is drawn as written when the elements of class \<^verbatim>\<open>status-btn\<close> that the browser
  builds from its card, and those of class \<^verbatim>\<open>reopen-btn\<close> that it builds from its row, are
  the buttons of the templates and no others. The values of a report can break this,
  since they go into the text unescaped.
\<close>

definition drawn_as_written :: "'n host \<Rightarrow> 'n json \<Rightarrow> bool" where
  "drawn_as_written h r =
     (map (\<lambda>e. (map_of e ''data-id'', map_of e ''data-status''))
        (filter (has_class ''status-btn'') (card_elements h r)) = template_status_buttons h r
      \<and> map (\<lambda>e. map_of e ''data-id'')
          (filter (has_class ''reopen-btn'') (row_elements h r)) = template_reopen_buttons h r)"

section \<open>A reference host\<close>

text \<open>
  A host to run the program on: JSON text without white space and with whole numbers,
  written as \<^verbatim>\<open>JSON.stringify\<close> writes it, and dates in the one format that
  \<^verbatim>\<open>toISOString\<close> writes. Characters are bytes, so an escape \<^verbatim>\<open>\uXXXX\<close> is read only
  below 256. The parser carries fuel, one unit for each level of nesting and each element;
  the length of the text is enough.
\<close>

definition dquote :: char where
  "dquote = CHR 0x22"

definition bslash :: char where
  "bslash = CHR 0x5C"

definition ref_escape_char :: "char \<Rightarrow> string" where
  "ref_escape_char c =
     (if c = dquote then [bslash, dquote]
      else if c = bslash then [bslash, bslash]
      else if c = CHR 0x08 then [bslash, CHR ''b'']
      else if c = CHR 0x09 then [bslash, CHR ''t'']
      else if c = CHR 0x0A then [bslash, CHR ''n'']
      else if c = CHR 0x0C then [bslash, CHR ''f'']
      else if c = CHR 0x0D then [bslash, CHR ''r'']
      else if (of_char c :: nat) < 32
      then [bslash, CHR ''u'', CHR ''0'', CHR ''0'',
            digit_char (of_char c div 16), digit_char (of_char c mod 16)]
      else [c])"

definition ref_quote :: "string \<Rightarrow> string" where
  "ref_quote s = dquote # concat (map ref_escape_char s) @ [dquote]"

fun ref_stringify :: "int json \<Rightarrow> string" where
  "ref_stringify JNull = ''null''"
| "ref_stringify (JBool b) = (if b then ''true'' else ''false'')"
| "ref_stringify (JNum n) = show_int n"
| "ref_stringify (JStr s) = ref_quote s"
| "ref_stringify (JArr xs) = ''['' @ join '','' (map ref_stringify xs) @ '']''"
| "ref_stringify (JObj kvs) =
     ''{'' @ join '','' (map (\<lambda>kv. ref_quote (fst kv) @ '':'' @ ref_stringify (snd kv)) kvs) @ ''}''"

definition is_digit :: "char \<Rightarrow> bool" where
  "is_digit c = (c \<in> set ''0123456789'')"

definition digit_val :: "char \<Rightarrow> int" where
  "digit_val c = of_char c - 48"

definition ref_hex_val :: "char \<Rightarrow> nat option" where
  "ref_hex_val c =
     (if is_digit c then Some (of_char c - 48)
      else if c \<in> set ''abcdef'' then Some (of_char c - 87)
      else if c \<in> set ''ABCDEF'' then Some (of_char c - 55)
      else None)"

definition read_digits :: "string \<Rightarrow> int" where
  "read_digits ds = foldl (\<lambda>a c. 10 * a + digit_val c) 0 ds"

definition ref_unescape :: "char \<Rightarrow> char option" where
  "ref_unescape e =
     (if e = dquote \<or> e = bslash \<or> e = CHR ''/'' then Some e
      else if e = CHR ''b'' then Some (CHR 0x08)
      else if e = CHR ''t'' then Some (CHR 0x09)
      else if e = CHR ''n'' then Some (CHR 0x0A)
      else if e = CHR ''f'' then Some (CHR 0x0C)
      else if e = CHR ''r'' then Some (CHR 0x0D)
      else None)"

fun ref_hex4 :: "string \<Rightarrow> char option" where
  "ref_hex4 (a # b # c # d # r) =
     (case (ref_hex_val a, ref_hex_val b, ref_hex_val c, ref_hex_val d) of
        (Some x, Some y, Some z, Some u) \<Rightarrow>
          (if x = 0 \<and> y = 0 then Some (char_of (16 * z + u)) else None)
      | _ \<Rightarrow> None)"
| "ref_hex4 _ = None"

fun ref_parse_chars :: "string \<Rightarrow> (string \<times> string) option" where
  "ref_parse_chars [] = None"
| "ref_parse_chars [c] = (if c = dquote then Some ([], []) else None)"
| "ref_parse_chars (c # e # r) =
     (if c = dquote then Some ([], e # r)
      else if c = bslash then
        (case ref_unescape e of
           Some x \<Rightarrow> map_option (\<lambda>(s, t). (x # s, t)) (ref_parse_chars r)
         | None \<Rightarrow>
             if e = CHR ''u''
             then (case ref_hex4 r of
                     Some x \<Rightarrow> map_option (\<lambda>(s, t). (x # s, t)) (ref_parse_chars (drop 4 r))
                   | None \<Rightarrow> None)
             else None)
      else if (of_char c :: nat) < 32 then None
      else map_option (\<lambda>(s, t). (c # s, t)) (ref_parse_chars (e # r)))"

definition ref_parse_number :: "string \<Rightarrow> (int json \<times> string) option" where
  "ref_parse_number s =
     (case s of
        [] \<Rightarrow> None
      | c # r \<Rightarrow>
          if c = CHR ''-''
          then (if takeWhile is_digit r = [] then None
                else Some (JNum (- read_digits (takeWhile is_digit r)), dropWhile is_digit r))
          else (if takeWhile is_digit s = [] then None
                else Some (JNum (read_digits (takeWhile is_digit s)), dropWhile is_digit s)))"

definition ref_literal :: "string \<Rightarrow> 'a \<Rightarrow> string \<Rightarrow> ('a \<times> string) option" where
  "ref_literal l v s = (if take (length l) s = l then Some (v, drop (length l) s) else None)"

fun ref_parse_value :: "nat \<Rightarrow> string \<Rightarrow> (int json \<times> string) option"
  and ref_parse_elems :: "nat \<Rightarrow> string \<Rightarrow> (int json list \<times> string) option"
  and ref_parse_members :: "nat \<Rightarrow> string \<Rightarrow> ((string \<times> int json) list \<times> string) option"
where
  "ref_parse_value 0 s = None"
| "ref_parse_value (Suc n) s =
     (case s of
        [] \<Rightarrow> None
      | c # r \<Rightarrow>
          if c = dquote then map_option (\<lambda>(x, t). (JStr x, t)) (ref_parse_chars r)
          else if c = CHR ''['' then
            (if take 1 r = '']'' then Some (JArr [], drop 1 r)
             else map_option (\<lambda>(xs, t). (JArr xs, t)) (ref_parse_elems n r))
          else if c = CHR ''{'' then
            (if take 1 r = ''}'' then Some (JObj [], drop 1 r)
             else map_option (\<lambda>(kvs, t). (JObj kvs, t)) (ref_parse_members n r))
          else if c = CHR ''n'' then ref_literal ''null'' JNull s
          else if c = CHR ''t'' then ref_literal ''true'' (JBool True) s
          else if c = CHR ''f'' then ref_literal ''false'' (JBool False) s
          else ref_parse_number s)"
| "ref_parse_elems 0 s = None"
| "ref_parse_elems (Suc n) s =
     (case ref_parse_value n s of
        None \<Rightarrow> None
      | Some (v, r) \<Rightarrow>
          (case r of
             [] \<Rightarrow> None
           | c # r' \<Rightarrow>
               if c = CHR '']'' then Some ([v], r')
               else if c = CHR '','' then map_option (\<lambda>(vs, t). (v # vs, t)) (ref_parse_elems n r')
               else None))"
| "ref_parse_members 0 s = None"
| "ref_parse_members (Suc n) s =
     (case s of
        [] \<Rightarrow> None
      | q # s' \<Rightarrow>
          if q \<noteq> dquote then None
          else (case ref_parse_chars s' of
                  None \<Rightarrow> None
                | Some (k, r0) \<Rightarrow>
                    (case r0 of
                       [] \<Rightarrow> None
                     | colon # r1 \<Rightarrow>
                         if colon \<noteq> CHR '':'' then None
                         else (case ref_parse_value n r1 of
                                 None \<Rightarrow> None
                               | Some (v, r) \<Rightarrow>
                                   (case r of
                                      [] \<Rightarrow> None
                                    | c # r' \<Rightarrow>
                                        if c = CHR ''}'' then Some ([(k, v)], r')
                                        else if c = CHR '','' then
                                          map_option (\<lambda>(kvs, t). ((k, v) # kvs, t)) (ref_parse_members n r')
                                        else None)))))"

text \<open>
  The members of an object are defined in the order of the text, so a name that comes
  again gives its first place a new value.
\<close>

fun ref_normalize :: "int json \<Rightarrow> int json" where
  "ref_normalize (JArr xs) = JArr (map ref_normalize xs)"
| "ref_normalize (JObj kvs) =
     JObj (foldl (\<lambda>acc kv. put_prop (fst kv) (snd kv) acc) []
             (map (\<lambda>kv. (fst kv, ref_normalize (snd kv))) kvs))"
| "ref_normalize v = v"

definition ref_parse :: "string \<Rightarrow> int json option" where
  "ref_parse s =
     (case ref_parse_value (Suc (length s)) s of
        Some (v, []) \<Rightarrow> Some (ref_normalize v)
      | _ \<Rightarrow> None)"

text \<open>The values of the model that are values of the language: no object has a name twice.\<close>

fun distinct_names :: "'n json \<Rightarrow> bool" where
  "distinct_names (JArr xs) = list_all distinct_names xs"
| "distinct_names (JObj kvs) =
     (distinct (map fst kvs) \<and> list_all (\<lambda>kv. distinct_names (snd kv)) kvs)"
| "distinct_names _ = True"

definition pad :: "nat \<Rightarrow> int \<Rightarrow> string" where
  "pad k n = replicate (k - length (show_digits n)) (CHR ''0'') @ show_digits n"

text \<open>Days since 1970-01-01 to year, month and day of the Gregorian calendar, and back.\<close>

definition civil_from_days :: "int \<Rightarrow> int \<times> int \<times> int" where
  "civil_from_days z0 =
     (let z = z0 + 719468;
          era = z div 146097;
          doe = z - era * 146097;
          yoe = (doe - doe div 1460 + doe div 36524 - doe div 146096) div 365;
          doy = doe - (365 * yoe + yoe div 4 - yoe div 100);
          mp = (5 * doy + 2) div 153;
          d = doy - (153 * mp + 2) div 5 + 1;
          m = (if mp < 10 then mp + 3 else mp - 9);
          y = yoe + era * 400
      in (if m \<le> 2 then y + 1 else y, m, d))"

definition days_from_civil :: "int \<Rightarrow> int \<Rightarrow> int \<Rightarrow> int" where
  "days_from_civil y0 m d =
     (let y = (if m \<le> 2 then y0 - 1 else y0);
          era = y div 400;
          yoe = y - era * 400;
          doy = (153 * (if m > 2 then m - 3 else m + 9) + 2) div 5 + d - 1;
          doe = yoe * 365 + yoe div 4 - yoe div 100 + doy
      in era * 146097 + doe - 719468)"

definition ref_toISOString :: "int \<Rightarrow> string" where
  "ref_toISOString t =
     (let ms = t mod 86400000;
          ymd = civil_from_days (t div 86400000);
          y = fst ymd
      in (if 0 \<le> y \<and> y \<le> 9999 then pad 4 y
          else (if y < 0 then ''-'' else ''+'') @ pad 6 \<bar>y\<bar>)
         @ ''-'' @ pad 2 (fst (snd ymd)) @ ''-'' @ pad 2 (snd (snd ymd))
         @ ''T'' @ pad 2 (ms div 3600000) @ '':'' @ pad 2 (ms div 60000 mod 60)
         @ '':'' @ pad 2 (ms div 1000 mod 60) @ ''.'' @ pad 3 (ms mod 1000) @ ''Z'')"

definition num_at :: "string \<Rightarrow> nat \<Rightarrow> nat \<Rightarrow> int option" where
  "num_at s i k =
     (if i + k \<le> length s \<and> list_all is_digit (take k (drop i s))
      then Some (read_digits (take k (drop i s))) else None)"

definition ref_parse_iso :: "string \<Rightarrow> int option" where
  "ref_parse_iso s =
     (if length s = 24 \<and> map (\<lambda>i. s ! i) [4, 7, 10, 13, 16, 19, 23] = ''--T::.Z''
      then (case (num_at s 0 4, num_at s 5 2, num_at s 8 2, num_at s 11 2,
                  num_at s 14 2, num_at s 17 2, num_at s 20 3) of
              (Some y, Some m, Some d, Some hh, Some mm, Some ss, Some ms) \<Rightarrow>
                (if 1 \<le> m \<and> m \<le> 12 \<and> 1 \<le> d \<and> d \<le> 31 \<and> hh \<le> 23 \<and> mm \<le> 59 \<and> ss \<le> 59
                 then Some (days_from_civil y m d * 86400000
                            + ((hh * 60 + mm) * 60 + ss) * 1000 + ms)
                 else None)
            | _ \<Rightarrow> None)
      else None)"

text \<open>
  \<^verbatim>\<open>new Date(x)\<close>: a string is parsed, \<^verbatim>\<open>undefined\<close> gives an invalid date,
  \<^verbatim>\<open>null\<close> and booleans count as numbers; arrays and objects are taken as invalid.
\<close>

definition ref_Date_getTime :: "int json option \<Rightarrow> int option" where
  "ref_Date_getTime x =
     (case x of
        Some (JStr s) \<Rightarrow> ref_parse_iso s
      | Some (JNum n) \<Rightarrow> (if \<bar>n\<bar> \<le> 8640000000000000 then Some n else None)
      | Some JNull \<Rightarrow> Some 0
      | Some (JBool b) \<Rightarrow> Some (if b then 1 else 0)
      | _ \<Rightarrow> None)"

definition ref_engine_message :: "js_error \<Rightarrow> string" where
  "ref_engine_message e =
     (case e of
        SyntaxError \<Rightarrow> ''Unexpected token''
      | TypeError \<Rightarrow> ''not a function''
      | Error m \<Rightarrow> m
      | ProgressEvent \<Rightarrow> ''undefined''
      | QuotaExceededError \<Rightarrow> ''The quota has been exceeded.'')"

text \<open>
  A storage with room for \<open>quota\<close> characters under a key, the key counted in. A browser
  gives an origin about five million characters; what other keys hold is not available.
\<close>

definition ref_setItem_ok :: "int \<Rightarrow> (string \<Rightarrow> string option) \<Rightarrow> string \<Rightarrow> string \<Rightarrow> bool" where
  "ref_setItem_ok quota st k v = (int (length k) + int (length v) \<le> quota)"

text \<open>Dates in the \<^verbatim>\<open>en-IN\<close> form, day first, in universal time with a twelve-hour clock.\<close>

definition ref_toLocaleDateString :: "int option \<Rightarrow> string" where
  "ref_toLocaleDateString t =
     (case t of
        None \<Rightarrow> ''Invalid Date''
      | Some ms \<Rightarrow>
          (let ymd = civil_from_days (ms div 86400000)
           in show_int (snd (snd ymd)) @ ''/'' @ show_int (fst (snd ymd)) @ ''/'' @ show_int (fst ymd)))"

definition ref_toLocaleString :: "int option \<Rightarrow> string" where
  "ref_toLocaleString t =
     (case t of
        None \<Rightarrow> ''Invalid Date''
      | Some ms \<Rightarrow>
          (let s = ms mod 86400000;
               hh = s div 3600000
           in ref_toLocaleDateString t @ '', ''
              @ show_int (if hh mod 12 = 0 then 12 else hh mod 12)
              @ '':'' @ pad 2 (s div 60000 mod 60) @ '':'' @ pad 2 (s div 1000 mod 60)
              @ (if hh < 12 then '' am'' else '' pm'')))"

text \<open>
  A reader of HTML that knows start tags and their attributes. It goes through the text
  one character at a time, in the states of the HTML tokenizer that concern a start tag,
  and gives out an element at the \<^verbatim>\<open>>\<close> that ends its tag. Names are put in lower case;
  character references, comments and end tags are passed over as text, and the element
  that receives the text makes no difference. An attribute that comes again in a tag is
  dropped: the first one counts.
\<close>

datatype ref_state =
    Data
  | TagOpen
  | TagName
  | BeforeAttrName element
  | AttrName string element
  | AfterAttrName string element
  | BeforeAttrValue string element
  | AttrValueQuoted char string string element
  | AttrValueUnquoted string string element

definition ref_is_letter :: "char \<Rightarrow> bool" where
  "ref_is_letter c =
     (c \<in> set ''abcdefghijklmnopqrstuvwxyz'' \<or> c \<in> set ''ABCDEFGHIJKLMNOPQRSTUVWXYZ'')"

definition ref_lower :: "char \<Rightarrow> char" where
  "ref_lower c =
     (case map_of (zip ''ABCDEFGHIJKLMNOPQRSTUVWXYZ'' ''abcdefghijklmnopqrstuvwxyz'') c of
        Some l \<Rightarrow> l
      | None \<Rightarrow> c)"

fun ref_first_attrs :: "element \<Rightarrow> element" where
  "ref_first_attrs [] = []"
| "ref_first_attrs (a # as) = a # ref_first_attrs (filter (\<lambda>b. fst b \<noteq> fst a) as)"

text \<open>The end of a tag whose attributes were read last first.\<close>

definition ref_end_tag :: "element \<Rightarrow> ref_state \<times> element option" where
  "ref_end_tag as = (Data, Some (ref_first_attrs (rev as)))"

fun ref_step :: "ref_state \<Rightarrow> char \<Rightarrow> ref_state \<times> element option" where
  "ref_step Data c = (if c = CHR ''<'' then TagOpen else Data, None)"
| "ref_step TagOpen c =
     (if ref_is_letter c then TagName else if c = CHR ''<'' then TagOpen else Data, None)"
| "ref_step TagName c =
     (if c = CHR ''>'' then ref_end_tag []
      else if is_space c \<or> c = CHR ''/'' then (BeforeAttrName [], None)
      else (TagName, None))"
| "ref_step (BeforeAttrName as) c =
     (if c = CHR ''>'' then ref_end_tag as
      else if is_space c \<or> c = CHR ''/'' then (BeforeAttrName as, None)
      else (AttrName [ref_lower c] as, None))"
| "ref_step (AttrName n as) c =
     (if c = CHR ''>'' then ref_end_tag ((rev n, []) # as)
      else if c = CHR ''='' then (BeforeAttrValue (rev n) as, None)
      else if is_space c then (AfterAttrName (rev n) as, None)
      else if c = CHR ''/'' then (BeforeAttrName ((rev n, []) # as), None)
      else (AttrName (ref_lower c # n) as, None))"
| "ref_step (AfterAttrName n as) c =
     (if c = CHR ''>'' then ref_end_tag ((n, []) # as)
      else if c = CHR ''='' then (BeforeAttrValue n as, None)
      else if is_space c then (AfterAttrName n as, None)
      else if c = CHR ''/'' then (BeforeAttrName ((n, []) # as), None)
      else (AttrName [ref_lower c] ((n, []) # as), None))"
| "ref_step (BeforeAttrValue n as) c =
     (if c = CHR ''>'' then ref_end_tag ((n, []) # as)
      else if is_space c then (BeforeAttrValue n as, None)
      else if c = dquote \<or> c = CHR 0x27 then (AttrValueQuoted c n [] as, None)
      else (AttrValueUnquoted n [c] as, None))"
| "ref_step (AttrValueQuoted q n v as) c =
     (if c = q then (BeforeAttrName ((n, rev v) # as), None)
      else (AttrValueQuoted q n (c # v) as, None))"
| "ref_step (AttrValueUnquoted n v as) c =
     (if c = CHR ''>'' then ref_end_tag ((n, rev v) # as)
      else if is_space c then (BeforeAttrName ((n, rev v) # as), None)
      else (AttrValueUnquoted n (c # v) as, None))"

fun ref_read :: "ref_state \<Rightarrow> string \<Rightarrow> element list"
  and ref_next :: "ref_state \<times> element option \<Rightarrow> string \<Rightarrow> element list"
where
  "ref_read st [] = []"
| "ref_read st (c # cs) = ref_next (ref_step st c) cs"
| "ref_next (st, None) cs = ref_read st cs"
| "ref_next (st, Some e) cs = e # ref_read st cs"

definition ref_innerHTML_elements :: "string \<Rightarrow> string \<Rightarrow> element list" where
  "ref_innerHTML_elements tag text = ref_read Data text"

definition ref_host :: "int host" where
  "ref_host =
     \<lparr>JSON_parse = ref_parse,
      JSON_stringify = ref_stringify,
      Date_getTime = ref_Date_getTime,
      toISOString = ref_toISOString,
      engine_message = ref_engine_message,
      setItem_ok = ref_setItem_ok 5242880,
      Number_toString = show_int,
      Number_truthy = (\<lambda>n. n \<noteq> 0),
      toLocaleString = ref_toLocaleString,
      toLocaleDateString = ref_toLocaleDateString,
      innerHTML_elements = ref_innerHTML_elements\<rparr>"

text \<open>The same host with a storage that has room for \<open>quota\<close> characters only.\<close>

definition ref_host_quota :: "int \<Rightarrow> int host" where
  "ref_host_quota quota = ref_host\<lparr>setItem_ok := ref_setItem_ok quota\<rparr>"

section \<open>Assumptions on the host and worlds to run on\<close>

text \<open>
  The host writes a value and reads the same value back. \<^verbatim>\<open>JSON.stringify\<close> never
  writes the empty text, which \<^verbatim>\<open>getReports\<close> would take for an absent entry.
\<close>

definition round_trips :: "'n host \<Rightarrow> 'n json \<Rightarrow> bool" where
  "round_trips h v = (JSON_stringify h v \<noteq> [] \<and> JSON_parse h (JSON_stringify h v) = Some v)"

text \<open>
  The sequence of reports that a world holds, read from the text under the key without
  the functions of the store: the array that the text parses to; the empty sequence when
  there is no text, when it is empty and when it does not parse. A text that parses to a
  value that is not an array holds no sequence.
\<close>

definition stored :: "'n host \<Rightarrow> world \<Rightarrow> 'n json list option" where
  "stored h w =
     (case JSON_parse h (or_else (localStorage w STORAGE_KEY) ''[]'') of
        None \<Rightarrow> Some []
      | Some (JArr rs) \<Rightarrow> Some rs
      | Some _ \<Rightarrow> None)"

definition empty_world :: world where
  "empty_world = \<lparr>localStorage = Map.empty, console = []\<rparr>"

definition world_with :: "string \<Rightarrow> world" where
  "world_with text = \<lparr>localStorage = [STORAGE_KEY \<mapsto> text], console = []\<rparr>"

definition report_of :: "string \<Rightarrow> string \<Rightarrow> string \<Rightarrow> int json" where
  "report_of i st t =
     JObj [(''id'', JStr i), (''category'', JStr ''Pothole''), (''location'', JStr ''Main St''),
           (''description'', JStr []), (''imageData'', JStr ''data:,''),
           (''status'', JStr st), (''submittedAt'', JStr t)]"

definition three_reports :: "int json list" where
  "three_reports =
     [report_of ''report_1_a'' ''Pending'' ''2024-01-01T00:00:00.000Z'',
      report_of ''report_2_b'' ''Resolved'' ''2024-03-01T00:00:00.000Z'',
      report_of ''report_3_c'' ''In Progress'' ''2024-01-01T00:00:00.000Z'']"

definition pending_report :: "int json" where
  "pending_report = report_of ''report_1_a'' ''Pending'' ''2024-01-01T00:00:00.000Z''"

definition two_reports :: "int json list" where
  "two_reports =
     [report_of ''report_1_a'' ''Pending'' ''2024-01-01T00:00:00.000Z'',
      report_of ''report_2_b'' ''Resolved'' ''2024-03-01T00:00:00.000Z'']"



text \<open>
  The elements that the source finds in the pages by their \<^verbatim>\<open>id\<close>: the complaint list,
  the element shown for an empty list, and the body of the table. The HTML files may give
  them more attributes.
\<close>

definition page_static :: "element list" where
  "page_static =
     [[(''id'', ''complaint-list'')], [(''id'', ''empty-state'')], [(''id'', ''reports-tbody'')]]"

text \<open>A resolved report whose description is markup with a button of its own.\<close>

definition marked_up_report :: "int json" where
  \<open>marked_up_report =
     JObj [(''id'', JStr ''report_1_a''), (''category'', JStr ''Pothole''),
           (''location'', JStr ''Main St''),
           (''description'',
            JStr ''<b class="status-btn" data-id="report_1_a" data-status="Closed">open</b>''),
           (''imageData'', JStr ''data:,''), (''status'', JStr ''Resolved''),
           (''submittedAt'', JStr ''2024-01-01T00:00:00.000Z'')]\<close>

definition blank_form :: form where
  "blank_form = \<lparr>issue_category = [], location = [], description = [], photo_upload = []\<rparr>"

definition idle_ui :: "form \<Rightarrow> ui" where
  "idle_ui f =
     \<lparr>submitBtn_disabled = False, submitBtn_textContent = ''Submit Report'',
      formMessage_textContent = [], formMessage_className = [], formMessage_hidden = True,
      report_form = f, form_defaults = blank_form\<rparr>"

definition pothole_form :: form where
  "pothole_form =
     \<lparr>issue_category = ''Pothole'', location = ''Main St'', description = [],
      photo_upload = [File ''hole.png'']\<rparr>"

definition env0 :: submit_env where
  "env0 = \<lparr>image_read = Inr ''data:,'', id_clock = 1700000000123,
           id_random = ''0.4fzyo82mvyr'', submitted_clock = 1700000000123\<rparr>"

definition dup_world :: world where
  "dup_world =
     world_with (ref_stringify (JArr [report_of (generateId 1700000000123 ''0.4fzyo82mvyr'')
                                        ''Resolved'' ''2023-11-14T22:13:20.123Z'']))"


section \<open>Decimal numbers\<close>

lemma digit_char_lt10:
  assumes "d < 10"
  shows "is_digit (digit_char d) \<and> digit_val (digit_char d) = int d"
proof -
  have "list_all (\<lambda>d. is_digit (digit_char d) \<and> digit_val (digit_char d) = int d) [0..<10]"
    by code_simp
  with assms show ?thesis
    by (simp add: list_all_iff)
qed

lemma show_digits_digits:
  "list_all is_digit (show_digits i) \<and> show_digits i \<noteq> []"
proof (induction i rule: show_digits.induct)
  case (1 i)
  show ?case
  proof (cases "i < 10")
    case True
    then show ?thesis
      using digit_char_lt10 [of "nat i"] by (simp add: show_digits.simps [of i])
  next
    case False
    with 1 digit_char_lt10 [of "nat (i mod 10)"] show ?thesis
      by (simp add: show_digits.simps [of i])
  qed
qed

lemma read_digits_snoc:
  "read_digits (xs @ [c]) = 10 * read_digits xs + digit_val c"
  by (simp add: read_digits_def)

lemma read_digits_show_digits:
  "0 \<le> i \<Longrightarrow> read_digits (show_digits i) = i"
proof (induction i rule: show_digits.induct)
  case (1 i)
  show ?case
  proof (cases "i < 10")
    case True
    with 1(2) show ?thesis
      using digit_char_lt10 [of "nat i"] by (simp add: show_digits.simps [of i] read_digits_def)
  next
    case False
    with 1 have "read_digits (show_digits (i div 10)) = i div 10"
      by simp
    with False digit_char_lt10 [of "nat (i mod 10)"] show ?thesis
      by (simp add: show_digits.simps [of i] read_digits_snoc)
  qed
qed

lemma show_digits_inj:
  "0 \<le> i \<Longrightarrow> 0 \<le> j \<Longrightarrow> show_digits i = show_digits j \<Longrightarrow> i = j"
  by (metis read_digits_show_digits)

lemma show_int_chars:
  "c \<in> set (show_int i) \<Longrightarrow> c = CHR ''-'' \<or> is_digit c"
  using show_digits_digits by (auto simp: show_int_def list_all_iff split: if_splits)

lemma show_int_inj:
  assumes "show_int i = show_int j"
  shows "i = j"
proof -
  have hd_digit: "is_digit (hd (show_digits n))" for n
    using show_digits_digits [of n] by (cases "show_digits n") simp_all
  have minus: "\<not> is_digit (CHR ''-'')"
    by (simp add: is_digit_def)
  show ?thesis
  proof (cases "i < 0"; cases "j < 0")
    assume "i < 0" "j < 0"
    with assms show ?thesis
      using show_digits_inj [of "- i" "- j"] by (simp add: show_int_def)
  next
    assume "i < 0" "\<not> j < 0"
    with assms have "show_digits j = CHR ''-'' # show_digits (- i)"
      by (simp add: show_int_def)
    with hd_digit [of j] minus show ?thesis by simp
  next
    assume "\<not> i < 0" "j < 0"
    with assms have "show_digits i = CHR ''-'' # show_digits (- j)"
      by (simp add: show_int_def)
    with hd_digit [of i] minus show ?thesis by simp
  next
    assume "\<not> i < 0" "\<not> j < 0"
    with assms show ?thesis
      using show_digits_inj [of i j] by (simp add: show_int_def)
  qed
qed

section \<open>The reference host reads what it writes\<close>

lemma hex_val_digit_char:
  assumes "n < 16"
  shows "ref_hex_val (digit_char n) = Some n"
proof -
  have "list_all (\<lambda>n. ref_hex_val (digit_char n) = Some n) [0..<16]"
    by code_simp
  with assms show ?thesis
    by (simp add: list_all_iff)
qed

lemma hex4_control:
  assumes "(of_char c :: nat) < 32"
  shows "ref_hex4 (CHR ''0'' # CHR ''0'' # digit_char (of_char c div 16)
                    # digit_char (of_char c mod 16) # t) = Some c"
proof -
  let ?n = "of_char c :: nat"
  have z: "ref_hex_val (CHR ''0'') = Some 0"
    by (simp add: ref_hex_val_def is_digit_def)
  from assms have "?n div 16 < 16" "?n mod 16 < 16"
    by simp_all
  then have "ref_hex_val (digit_char (?n div 16)) = Some (?n div 16)"
    "ref_hex_val (digit_char (?n mod 16)) = Some (?n mod 16)"
    by (simp_all add: hex_val_digit_char)
  moreover have "char_of (16 * (?n div 16) + ?n mod 16) = c"
    by simp
  ultimately show ?thesis
    using z by simp
qed

lemma parse_chars_escape:
  assumes "t \<noteq> []"
  shows "ref_parse_chars (ref_escape_char c @ t) =
         map_option (\<lambda>(s, t'). (c # s, t')) (ref_parse_chars t)"
proof -
  from assms obtain e r where t: "t = e # r"
    by (cases t) auto
  consider (named) "c \<in> {dquote, bslash, CHR 0x08, CHR 0x09, CHR 0x0A, CHR 0x0C, CHR 0x0D}"
    | (control) "c \<notin> {dquote, bslash, CHR 0x08, CHR 0x09, CHR 0x0A, CHR 0x0C, CHR 0x0D}"
        "(of_char c :: nat) < 32"
    | (plain) "c \<notin> {dquote, bslash, CHR 0x08, CHR 0x09, CHR 0x0A, CHR 0x0C, CHR 0x0D}"
        "\<not> (of_char c :: nat) < 32"
    by blast
  then show ?thesis
  proof cases
    case named
    then show ?thesis
      by (auto simp: ref_escape_char_def ref_unescape_def dquote_def bslash_def)
  next
    case control
    then show ?thesis
      using hex4_control [OF control(2)]
      by (simp add: ref_escape_char_def ref_unescape_def dquote_def bslash_def)
  next
    case plain
    then show ?thesis
      by (simp add: ref_escape_char_def t)
  qed
qed

lemma parse_chars_quoted:
  "ref_parse_chars (concat (map ref_escape_char s) @ dquote # rest) = Some (s, rest)"
proof (induction s)
  case Nil
  show ?case by (cases rest) simp_all
next
  case (Cons c s)
  have "ref_parse_chars (ref_escape_char c @ (concat (map ref_escape_char s) @ dquote # rest)) =
        map_option (\<lambda>(s, t'). (c # s, t'))
          (ref_parse_chars (concat (map ref_escape_char s) @ dquote # rest))"
    by (rule parse_chars_escape) simp
  with Cons show ?case by simp
qed

text \<open>What may follow a number: the end of the text or a character that is not a digit.\<close>

lemma takeWhile_digits:
  assumes "rest = [] \<or> \<not> is_digit (hd rest)"
  shows "takeWhile is_digit (show_digits i @ rest) = show_digits i
         \<and> dropWhile is_digit (show_digits i @ rest) = rest"
proof -
  have d: "\<forall>c\<in>set (show_digits i). is_digit c"
    using show_digits_digits [of i] by (simp add: list_all_iff)
  from assms have "takeWhile is_digit rest = [] \<and> dropWhile is_digit rest = rest"
    by (cases rest) auto
  with d show ?thesis
    by (simp add: takeWhile_append2 dropWhile_append2)
qed

lemma show_digits_first:
  "\<exists>c r. show_digits j = c # r \<and> is_digit c"
  using show_digits_digits [of j] by (cases "show_digits j") auto

lemma parse_number_plain:
  assumes "s \<noteq> []" "hd s \<noteq> CHR ''-''"
  shows "ref_parse_number s =
         (if takeWhile is_digit s = [] then None
          else Some (JNum (read_digits (takeWhile is_digit s)), dropWhile is_digit s))"
  using assms by (cases s) (simp_all add: ref_parse_number_def)

lemma parse_number_show_int:
  assumes "rest = [] \<or> \<not> is_digit (hd rest)"
  shows "ref_parse_number (show_int i @ rest) = Some (JNum i, rest)"
proof (cases "i < 0")
  case True
  with takeWhile_digits [OF assms, of "- i"] show_digits_digits [of "- i"]
  show ?thesis
    by (simp add: ref_parse_number_def show_int_def read_digits_show_digits)
next
  case False
  obtain c r where cr: "show_digits i = c # r" "is_digit c"
    using show_digits_first [of i] by blast
  then have "hd (show_digits i @ rest) \<noteq> CHR ''-''" "show_digits i @ rest \<noteq> []"
    by (auto simp: is_digit_def)
  from parse_number_plain [OF this(2) this(1)] False
    takeWhile_digits [OF assms, of i] show_digits_digits [of i]
  show ?thesis
    by (simp add: show_int_def read_digits_show_digits)
qed

lemma show_int_first:
  "\<exists>c r. show_int i = c # r \<and> (c = CHR ''-'' \<or> is_digit c)"
proof (cases "i < 0")
  case True
  then show ?thesis by (simp add: show_int_def)
next
  case False
  with show_digits_first [of i] show ?thesis
    by (auto simp: show_int_def)
qed

lemma stringify_first:
  "\<exists>c r. ref_stringify v = c # r \<and> c \<noteq> CHR '']''"
proof (cases v)
  case (JNum i)
  with show_int_first [of i] show ?thesis
    by (auto simp: is_digit_def)
qed (auto simp: ref_quote_def dquote_def)

lemma parse_value_leaf:
  assumes "rest = [] \<or> \<not> is_digit (hd rest)"
  shows "ref_parse_value (Suc n) (ref_stringify JNull @ rest) = Some (JNull, rest)"
    and "ref_parse_value (Suc n) (ref_stringify (JBool b) @ rest) = Some (JBool b, rest)"
    and "ref_parse_value (Suc n) (ref_stringify (JStr s) @ rest) = Some (JStr s, rest)"
    and "ref_parse_value (Suc n) (ref_stringify (JNum i) @ rest) = Some (JNum i, rest)"
proof -
  show "ref_parse_value (Suc n) (ref_stringify JNull @ rest) = Some (JNull, rest)"
    by (simp add: ref_literal_def dquote_def)
  show "ref_parse_value (Suc n) (ref_stringify (JBool b) @ rest) = Some (JBool b, rest)"
    by (simp add: ref_literal_def dquote_def)
  show "ref_parse_value (Suc n) (ref_stringify (JStr s) @ rest) = Some (JStr s, rest)"
    by (simp add: ref_quote_def parse_chars_quoted)
  obtain c r where cr: "show_int i = c # r" "c = CHR ''-'' \<or> is_digit c"
    using show_int_first [of i] by blast
  then have "c \<notin> {dquote, CHR ''['', CHR ''{'', CHR ''n'', CHR ''t'', CHR ''f''}"
    by (auto simp: is_digit_def dquote_def)
  with cr(1) parse_number_show_int [OF assms, of i]
  show "ref_parse_value (Suc n) (ref_stringify (JNum i) @ rest) = Some (JNum i, rest)"
    by simp
qed

lemma parse_elems_join:
  assumes ih: "\<And>x n rest. x \<in> set xs \<Longrightarrow> size x \<le> n \<Longrightarrow> rest = [] \<or> \<not> is_digit (hd rest) \<Longrightarrow>
                  ref_parse_value n (ref_stringify x @ rest) = Some (x, rest)"
    and ne: "xs \<noteq> []"
    and fuel: "size_list size xs \<le> n"
  shows "ref_parse_elems n (join '','' (map ref_stringify xs) @ CHR '']'' # rest) = Some (xs, rest)"
  using assms
proof (induction xs arbitrary: n)
  case Nil
  then show ?case by simp
next
  case (Cons x xs)
  from Cons.prems(3) obtain m where n: "n = Suc m" and m: "size x + size_list size xs \<le> m"
    by (cases n) auto
  have nd: "\<not> is_digit (CHR '','')" "\<not> is_digit (CHR '']'')"
    by (simp_all add: is_digit_def)
  show ?case
  proof (cases xs)
    case Nil
    have "ref_parse_value m (ref_stringify x @ CHR '']'' # rest) = Some (x, CHR '']'' # rest)"
      using m nd by (intro Cons.prems(1)) simp_all
    with Nil n show ?thesis by simp
  next
    case (Cons y ys)
    let ?tail = "join '','' (map ref_stringify xs) @ CHR '']'' # rest"
    have v: "ref_parse_value m (ref_stringify x @ CHR '','' # ?tail) = Some (x, CHR '','' # ?tail)"
      using m nd by (intro Cons.prems(1)) simp_all
    have "ref_parse_elems m ?tail = Some (xs, rest)"
      using m Cons Cons.prems(1) by (intro Cons.IH) auto
    with v n Cons show ?thesis by simp
  qed
qed

lemma parse_members_join:
  assumes ih: "\<And>k x n rest. (k, x) \<in> set kvs \<Longrightarrow> size x \<le> n \<Longrightarrow> rest = [] \<or> \<not> is_digit (hd rest) \<Longrightarrow>
                  ref_parse_value n (ref_stringify x @ rest) = Some (x, rest)"
    and ne: "kvs \<noteq> []"
    and fuel: "size_list (size_prod (\<lambda>_. 0) size) kvs \<le> n"
  shows "ref_parse_members n
           (join '','' (map (\<lambda>kv. ref_quote (fst kv) @ '':'' @ ref_stringify (snd kv)) kvs)
            @ CHR ''}'' # rest) = Some (kvs, rest)"
  using assms
proof (induction kvs arbitrary: n)
  case Nil
  then show ?case by simp
next
  case (Cons kv kvs)
  obtain k x where kv: "kv = (k, x)"
    by (cases kv)
  from Cons.prems(3) kv obtain m where n: "n = Suc m"
    and m: "size x + size_list (size_prod (\<lambda>_. 0) size) kvs \<le> m"
    by (cases n) auto
  have nd: "\<not> is_digit (CHR '','')" "\<not> is_digit (CHR ''}'')"
    by (simp_all add: is_digit_def)
  have key: "ref_parse_chars (concat (map ref_escape_char k) @ dquote # CHR '':'' # t)
             = Some (k, CHR '':'' # t)" for t
    by (rule parse_chars_quoted)
  show ?case
  proof (cases kvs)
    case Nil
    have "ref_parse_value m (ref_stringify x @ CHR ''}'' # rest) = Some (x, CHR ''}'' # rest)"
      by (rule Cons.prems(1) [of k]) (use m nd kv in simp_all)
    with Nil n kv key show ?thesis by (simp add: ref_quote_def)
  next
    case (Cons kv' kvs')
    let ?tail = "join '','' (map (\<lambda>kv. ref_quote (fst kv) @ '':'' @ ref_stringify (snd kv)) kvs)
                 @ CHR ''}'' # rest"
    have v: "ref_parse_value m (ref_stringify x @ CHR '','' # ?tail) = Some (x, CHR '','' # ?tail)"
      by (rule Cons.prems(1) [of k]) (use m nd kv in simp_all)
    have "ref_parse_members m ?tail = Some (kvs, rest)"
      using m Cons Cons.prems(1) by (intro Cons.IH) auto
    with v n Cons kv key show ?thesis by (simp add: ref_quote_def)
  qed
qed

lemma parse_value_stringify:
  "size v \<le> n \<Longrightarrow> rest = [] \<or> \<not> is_digit (hd rest) \<Longrightarrow>
   ref_parse_value n (ref_stringify v @ rest) = Some (v, rest)"
proof (induction v arbitrary: n rest)
  case JNull
  then show ?case by (cases n) (simp_all add: parse_value_leaf del: ref_stringify.simps ref_parse_value.simps)
next
  case (JBool b)
  then show ?case by (cases n) (simp_all add: parse_value_leaf del: ref_stringify.simps ref_parse_value.simps)
next
  case (JNum i)
  then show ?case by (cases n) (simp_all add: parse_value_leaf del: ref_stringify.simps ref_parse_value.simps)
next
  case (JStr s)
  then show ?case by (cases n) (simp_all add: parse_value_leaf del: ref_stringify.simps ref_parse_value.simps)
next
  case (JArr xs)
  from JArr.prems(1) obtain m where n: "n = Suc m" and m: "size_list size xs \<le> m"
    by (cases n) auto
  show ?case
  proof (cases xs)
    case Nil
    with n show ?thesis by (simp add: dquote_def)
  next
    case (Cons y ys)
    obtain c r where cr: "ref_stringify y = c # r" "c \<noteq> CHR '']''"
      using stringify_first [of y] by blast
    have "ref_parse_elems m (join '','' (map ref_stringify xs) @ CHR '']'' # rest) = Some (xs, rest)"
      using JArr.IH m Cons by (intro parse_elems_join) auto
    moreover have "take 1 (join '','' (map ref_stringify xs) @ CHR '']'' # rest) \<noteq> '']''"
      using Cons cr by (cases ys) auto
    ultimately show ?thesis
      using n by (simp add: dquote_def)
  qed
next
  case (JObj kvs)
  from JObj.prems(1) obtain m where n: "n = Suc m"
    and m: "size_list (size_prod (\<lambda>_. 0) size) kvs \<le> m"
    by (cases n) auto
  show ?case
  proof (cases kvs)
    case Nil
    with n show ?thesis by (simp add: dquote_def)
  next
    case (Cons kv kvs')
    let ?body = "join '','' (map (\<lambda>kv. ref_quote (fst kv) @ '':'' @ ref_stringify (snd kv)) kvs)"
    have "ref_parse_members m (?body @ CHR ''}'' # rest) = Some (kvs, rest)"
      using JObj.IH m Cons by (intro parse_members_join) auto
    moreover have "take 1 (?body @ CHR ''}'' # rest) \<noteq> ''}''"
      using Cons by (cases kvs') (auto simp: ref_quote_def dquote_def)
    ultimately show ?thesis
      using n by (simp add: dquote_def)
  qed
qed

lemma size_list_join:
  assumes "\<And>x. x \<in> set xs \<Longrightarrow> f x \<le> length (g x)" and "sep \<noteq> []"
  shows "size_list f xs \<le> length (join sep (map g xs)) + 1"
  using assms(1)
proof (induction xs rule: induct_list012)
  case 1
  then show ?case by simp
next
  case (2 x)
  then show ?case by simp
next
  case (3 x y zs)
  then have "size_list f (y # zs) \<le> length (join sep (map g (y # zs))) + 1"
    by simp
  moreover have "f x \<le> length (g x)"
    using 3(3) by simp
  moreover have "1 \<le> length sep"
    using assms(2) by (cases sep) simp_all
  ultimately show ?case by simp
qed

lemma size_le_length:
  "size v \<le> length (ref_stringify v)"
proof (induction v)
  case (JNum i)
  obtain c r where "show_int i = c # r"
    using show_int_first [of i] by blast
  then show ?case by simp
next
  case (JArr xs)
  then have "size_list size xs \<le> length (join '','' (map ref_stringify xs)) + 1"
    by (intro size_list_join) simp_all
  then show ?case by simp
next
  case (JObj kvs)
  have "size_list (size_prod (\<lambda>_. 0) size) kvs \<le>
        length (join '','' (map (\<lambda>kv. ref_quote (fst kv) @ '':'' @ ref_stringify (snd kv)) kvs)) + 1"
  proof (rule size_list_join)
    fix kv assume "kv \<in> set kvs"
    moreover have "snd kv \<in> Basic_BNFs.snds kv"
      by (cases kv) simp
    ultimately have "size (snd kv) \<le> length (ref_stringify (snd kv))"
      by (rule JObj.IH)
    then show "size_prod (\<lambda>_. 0) size kv \<le> length (ref_quote (fst kv) @ '':'' @ ref_stringify (snd kv))"
      by (cases kv) (simp add: ref_quote_def)
  qed simp
  then show ?case by simp
qed (simp_all add: ref_quote_def)

lemma put_prop_new:
  "k \<notin> fst ` set kvs \<Longrightarrow> put_prop k v kvs = kvs @ [(k, v)]"
  by (induction kvs) auto

lemma foldl_put_prop_distinct:
  "distinct (map fst (acc @ kvs)) \<Longrightarrow>
   foldl (\<lambda>acc kv. put_prop (fst kv) (snd kv) acc) acc kvs = acc @ kvs"
proof (induction kvs arbitrary: acc)
  case Nil
  then show ?case by simp
next
  case (Cons kv kvs)
  then have "put_prop (fst kv) (snd kv) acc = acc @ [kv]"
    by (simp add: put_prop_new)
  moreover from Cons.prems have "distinct (map fst ((acc @ [kv]) @ kvs))"
    by simp
  ultimately show ?case
    using Cons.IH [of "acc @ [kv]"] by simp
qed

lemma normalize_distinct_names:
  "distinct_names v \<Longrightarrow> ref_normalize v = v"
proof (induction v)
  case (JArr xs)
  then show ?case by (simp add: list_all_iff map_idI)
next
  case (JObj kvs)
  have "(\<lambda>kv. (fst kv, ref_normalize (snd kv))) kv = kv" if "kv \<in> set kvs" for kv
  proof -
    from that JObj.prems have "distinct_names (snd kv)"
      by (simp add: list_all_iff)
    moreover have "snd kv \<in> Basic_BNFs.snds kv"
      by (cases kv) simp
    ultimately have "ref_normalize (snd kv) = snd kv"
      using that by (intro JObj.IH)
    then show ?thesis by simp
  qed
  then have "map (\<lambda>kv. (fst kv, ref_normalize (snd kv))) kvs = kvs"
    by (simp add: map_idI)
  moreover from JObj.prems have "distinct (map fst ([] @ kvs))"
    by simp
  ultimately show ?case
    using foldl_put_prop_distinct [of "[]" kvs] by simp
qed simp_all

lemma ref_parse_stringify:
  assumes "distinct_names v"
  shows "ref_parse (ref_stringify v) = Some v"
proof -
  have "ref_parse_value (Suc (length (ref_stringify v))) (ref_stringify v @ []) = Some (v, [])"
    using size_le_length [of v] by (intro parse_value_stringify) simp_all
  with assms show ?thesis
    by (simp add: ref_parse_def normalize_distinct_names)
qed

text \<open>
  The reference host reads back every value that it writes, so the assumption of the
  round trip can be met for every sequence of reports.
\<close>

lemma ref_host_round_trips:
  "distinct_names v \<Longrightarrow> round_trips ref_host v"
  using stringify_first [of v] by (auto simp: round_trips_def ref_host_def ref_parse_stringify)

section \<open>The store: reading and writing\<close>

lemma getReports_eq:
  "getReports h w =
     (case JSON_parse h (or_else (localStorage w STORAGE_KEY) ''[]'') of
        Some v \<Rightarrow> (Inr v, w)
      | None \<Rightarrow> (Inr (JArr []),
                  w\<lparr>console := console w @ [''Error parsing reports from localStorage'']\<rparr>))"
  by (simp add: getReports_def js_try_def js_bind_def getItem_def JSON_parse_js_def js_lift_def
      console_error_def js_return_def split: option.splits)

lemma getReports_stored:
  assumes "stored h w = Some rs"
  shows "fst (getReports h w) = Inr (JArr rs)"
    and "localStorage (snd (getReports h w)) = localStorage w"
    and "rs \<noteq> [] \<Longrightarrow> getReports h w = (Inr (JArr rs), w)"
  using assms
  by (auto simp: getReports_eq stored_def split: option.splits json.splits)

lemma stored_world_with:
  assumes "round_trips h (JArr rs)"
  shows "stored h (world_with (JSON_stringify h (JArr rs))) = Some rs"
  using assms by (simp add: stored_def world_with_def or_else_def round_trips_def)

lemma ref_host_quota_round_trips:
  "distinct_names v \<Longrightarrow> round_trips (ref_host_quota quota) v"
  using ref_host_round_trips [of v] by (simp add: round_trips_def ref_host_quota_def)

lemma saveReports_eq:
  "saveReports h v w =
     (if setItem_ok h (localStorage w) STORAGE_KEY (JSON_stringify h v)
      then (Inr (), w\<lparr>localStorage := (localStorage w)(STORAGE_KEY \<mapsto> JSON_stringify h v)\<rparr>)
      else (Inl QuotaExceededError, w))"
  by (simp add: saveReports_def setItem_def)

lemma save_then_get:
  assumes "round_trips h v"
  shows "(setItem_ok h (localStorage w) STORAGE_KEY (JSON_stringify h v) \<longrightarrow>
            (\<exists>w'. saveReports h v w = (Inr (), w') \<and> getReports h w' = (Inr v, w')))
       \<and> (\<not> setItem_ok h (localStorage w) STORAGE_KEY (JSON_stringify h v) \<longrightarrow>
            saveReports h v w = (Inl QuotaExceededError, w))"
  using assms by (simp add: saveReports_eq getReports_eq round_trips_def or_else_def)

text \<open>
  C1, as the code has it. On a host that reads back the text it writes for a sequence of
  reports: when the storage takes the text, \<^verbatim>\<open>saveReports\<close> returns and \<^verbatim>\<open>getReports\<close>
  then gives the same sequence, in content and order; when the storage refuses it,
  \<^verbatim>\<open>saveReports\<close> throws the error of \<^verbatim>\<open>setItem\<close> and the world is as it was.
\<close>

theorem saveReports_getReports:
  assumes "round_trips h (JArr R)"
  shows "(setItem_ok h (localStorage w) STORAGE_KEY (JSON_stringify h (JArr R)) \<longrightarrow>
            (\<exists>w'. saveReports h (JArr R) w = (Inr (), w')
                  \<and> getReports h w' = (Inr (JArr R), w')))
       \<and> (\<not> setItem_ok h (localStorage w) STORAGE_KEY (JSON_stringify h (JArr R)) \<longrightarrow>
            saveReports h (JArr R) w = (Inl QuotaExceededError, w))"
  using save_then_get [OF assms] .

theorem saveReports_getReports_witness:
  "round_trips ref_host
     (JArr [report_of ''report_2_b'' ''Resolved'' ''2024-01-02T00:00:00.000Z'',
            report_of ''report_1_a'' ''Pending'' ''2024-01-01T00:00:00.000Z'']) \<and>
   setItem_ok ref_host (localStorage (world_with ''[]'')) STORAGE_KEY
     (JSON_stringify ref_host
        (JArr [report_of ''report_2_b'' ''Resolved'' ''2024-01-02T00:00:00.000Z'',
               report_of ''report_1_a'' ''Pending'' ''2024-01-01T00:00:00.000Z''])) \<and>
   (\<exists>w'. saveReports ref_host
            (JArr [report_of ''report_2_b'' ''Resolved'' ''2024-01-02T00:00:00.000Z'',
                   report_of ''report_1_a'' ''Pending'' ''2024-01-01T00:00:00.000Z''])
            (world_with ''[]'') = (Inr (), w') \<and>
          getReports ref_host w' =
            (Inr (JArr [report_of ''report_2_b'' ''Resolved'' ''2024-01-02T00:00:00.000Z'',
                        report_of ''report_1_a'' ''Pending'' ''2024-01-01T00:00:00.000Z'']), w'))"
proof -
  have rt: "round_trips ref_host
     (JArr [report_of ''report_2_b'' ''Resolved'' ''2024-01-02T00:00:00.000Z'',
            report_of ''report_1_a'' ''Pending'' ''2024-01-01T00:00:00.000Z''])"
    by (rule ref_host_round_trips) (simp add: report_of_def)
  have ok: "setItem_ok ref_host (localStorage (world_with ''[]'')) STORAGE_KEY
     (JSON_stringify ref_host
        (JArr [report_of ''report_2_b'' ''Resolved'' ''2024-01-02T00:00:00.000Z'',
               report_of ''report_1_a'' ''Pending'' ''2024-01-01T00:00:00.000Z'']))"
    by code_simp
  from rt ok saveReports_getReports [OF rt, of "world_with ''[]''"] show ?thesis
    by blast
qed

text \<open>
  C1, as the claim states it, holds for every sequence. A storage with room for sixty-four
  characters refuses the text of one report: \<^verbatim>\<open>saveReports\<close> throws, and \<^verbatim>\<open>getReports\<close>
  then gives what the storage held before, the empty sequence.
\<close>

theorem saveReports_refused_counterexample:
  "round_trips (ref_host_quota 64) (JArr [report_of ''report_1_a'' ''Pending'' ''2024-01-01T00:00:00.000Z''])
   \<and> fst (saveReports (ref_host_quota 64)
            (JArr [report_of ''report_1_a'' ''Pending'' ''2024-01-01T00:00:00.000Z''])
            (world_with ''[]'')) = Inl QuotaExceededError
   \<and> fst (getReports (ref_host_quota 64)
            (snd (saveReports (ref_host_quota 64)
                    (JArr [report_of ''report_1_a'' ''Pending'' ''2024-01-01T00:00:00.000Z''])
                    (world_with ''[]'')))) = Inr (JArr [])"
  by code_simp

text \<open>
  C2, as the code has it. \<^verbatim>\<open>getReports\<close> never throws. When the text under the key does
  not parse it returns the empty array and writes one line to the console; when the text
  parses to an array it returns that array and writes nothing. An absent or empty entry
  is read as \<^verbatim>\<open>[]\<close>, so it gives the empty array without a line on the console.
\<close>

theorem getReports_fails_soft:
  "(\<exists>v. fst (getReports h w) = Inr v) \<and>
   (JSON_parse h (or_else (localStorage w STORAGE_KEY) ''[]'') = None \<longrightarrow>
      getReports h w =
        (Inr (JArr []), w\<lparr>console := console w @ [''Error parsing reports from localStorage'']\<rparr>)) \<and>
   (\<forall>rs. JSON_parse h (or_else (localStorage w STORAGE_KEY) ''[]'') = Some (JArr rs) \<longrightarrow>
      getReports h w = (Inr (JArr rs), w)) \<and>
   ((localStorage w STORAGE_KEY = None \<or> localStorage w STORAGE_KEY = Some []) \<and>
    JSON_parse h ''[]'' = Some (JArr []) \<longrightarrow> getReports h w = (Inr (JArr []), w))"
  by (auto simp: getReports_eq or_else_def split: option.splits)

theorem getReports_fails_soft_witness:
  "JSON_parse ref_host (or_else (localStorage (world_with ''[{'') STORAGE_KEY) ''[]'') = None \<and>
   getReports ref_host (world_with ''[{'') =
     (Inr (JArr []),
      (world_with ''[{'')\<lparr>console := console (world_with ''[{'')
                                   @ [''Error parsing reports from localStorage'']\<rparr>)"
proof -
  have bad: "JSON_parse ref_host (or_else (localStorage (world_with ''[{'') STORAGE_KEY) ''[]'') = None"
    by code_simp
  from bad getReports_fails_soft [of ref_host "world_with ''[{''"] show ?thesis
    by blast
qed

text \<open>
  C2, as the claim states it, asks for a line on the console when the entry is absent.
  On the reference host an absent entry gives the empty array and leaves the console empty.
\<close>

theorem getReports_absent_counterexample:
  "fst (getReports ref_host empty_world) = Inr (JArr []) \<and>
   console (snd (getReports ref_host empty_world)) = []"
  by (simp add: getReports_eq or_else_def empty_world_def) code_simp

lemma addReport_eq:
  assumes "stored h w = Some rs"
  shows "addReport h r w = saveReports h (JArr (rs @ [r])) (snd (getReports h w))"
    and "setItem_ok h (localStorage w) STORAGE_KEY (JSON_stringify h (JArr (rs @ [r]))) \<Longrightarrow>
           fst (addReport h r w) = Inr () \<and>
           localStorage (snd (addReport h r w)) =
             (localStorage w)(STORAGE_KEY \<mapsto> JSON_stringify h (JArr (rs @ [r])))"
    and "\<not> setItem_ok h (localStorage w) STORAGE_KEY (JSON_stringify h (JArr (rs @ [r]))) \<Longrightarrow>
           fst (addReport h r w) = Inl QuotaExceededError \<and>
           localStorage (snd (addReport h r w)) = localStorage w"
proof -
  from getReports_stored [OF assms] obtain w1
    where g: "getReports h w = (Inr (JArr rs), w1)" and l: "localStorage w1 = localStorage w"
    by (cases "getReports h w") auto
  show eq: "addReport h r w = saveReports h (JArr (rs @ [r])) (snd (getReports h w))"
    using g by (simp add: addReport_def js_bind_def js_lift_def)
  show "fst (addReport h r w) = Inr () \<and>
        localStorage (snd (addReport h r w)) =
          (localStorage w)(STORAGE_KEY \<mapsto> JSON_stringify h (JArr (rs @ [r])))"
    if "setItem_ok h (localStorage w) STORAGE_KEY (JSON_stringify h (JArr (rs @ [r])))"
    using that g l by (simp add: eq saveReports_eq)
  show "fst (addReport h r w) = Inl QuotaExceededError \<and>
        localStorage (snd (addReport h r w)) = localStorage w"
    if "\<not> setItem_ok h (localStorage w) STORAGE_KEY (JSON_stringify h (JArr (rs @ [r])))"
    using that g l by (simp add: eq saveReports_eq)
qed

text \<open>
  C4, as the code has it. On a world that holds a sequence of reports, \<^verbatim>\<open>addReport\<close> does
  what saving the loaded sequence with the report put last does. When the storage takes
  the new text, the reports that were there stay, in their order, and the new one
  follows; when the storage refuses it, the error of \<^verbatim>\<open>setItem\<close> is thrown and the
  storage is as it was. The report can be any value; nothing about it is checked.
\<close>

theorem addReport_appends:
  assumes "stored h w = Some rs"
  shows "addReport h r w = saveReports h (JArr (rs @ [r])) (snd (getReports h w))
       \<and> (setItem_ok h (localStorage w) STORAGE_KEY (JSON_stringify h (JArr (rs @ [r]))) \<longrightarrow>
            fst (addReport h r w) = Inr () \<and>
            localStorage (snd (addReport h r w)) =
              (localStorage w)(STORAGE_KEY \<mapsto> JSON_stringify h (JArr (rs @ [r]))))
       \<and> (\<not> setItem_ok h (localStorage w) STORAGE_KEY (JSON_stringify h (JArr (rs @ [r]))) \<longrightarrow>
            fst (addReport h r w) = Inl QuotaExceededError \<and>
            localStorage (snd (addReport h r w)) = localStorage w)"
  using addReport_eq [OF assms, of r] by blast

theorem addReport_appends_witness:
  "stored ref_host (world_with (JSON_stringify ref_host (JArr two_reports))) = Some two_reports
   \<and> setItem_ok ref_host (localStorage (world_with (JSON_stringify ref_host (JArr two_reports))))
       STORAGE_KEY (JSON_stringify ref_host (JArr (two_reports @ [JNull])))
   \<and> fst (addReport ref_host JNull (world_with (JSON_stringify ref_host (JArr two_reports)))) = Inr ()
   \<and> localStorage (snd (addReport ref_host JNull
                          (world_with (JSON_stringify ref_host (JArr two_reports))))) =
       (localStorage (world_with (JSON_stringify ref_host (JArr two_reports))))
         (STORAGE_KEY \<mapsto> JSON_stringify ref_host (JArr (two_reports @ [JNull])))"
proof -
  have "round_trips ref_host (JArr two_reports)"
    by (rule ref_host_round_trips) (simp add: two_reports_def report_of_def)
  then have st: "stored ref_host (world_with (JSON_stringify ref_host (JArr two_reports)))
                 = Some two_reports"
    by (rule stored_world_with)
  have ok: "setItem_ok ref_host (localStorage (world_with (JSON_stringify ref_host (JArr two_reports))))
       STORAGE_KEY (JSON_stringify ref_host (JArr (two_reports @ [JNull])))"
    by code_simp
  from st ok addReport_appends [OF st, of JNull] show ?thesis
    by blast
qed

text \<open>
  C4, as the claim states it, puts the report at the end in every state of the store. On
  a storage with room for 256 characters that holds one report, the text of two reports
  is refused: \<^verbatim>\<open>addReport\<close> throws and the one report stays alone.
\<close>

theorem addReport_refused_counterexample:
  "setItem_ok (ref_host_quota 256) (localStorage empty_world) STORAGE_KEY (ref_stringify (JArr [pending_report]))
   \<and> stored (ref_host_quota 256) (world_with (ref_stringify (JArr [pending_report])))
       = Some [pending_report]
   \<and> fst (addReport (ref_host_quota 256)
            (report_of ''report_3_c'' ''Pending'' ''2024-04-01T00:00:00.000Z'')
            (world_with (ref_stringify (JArr [pending_report])))) = Inl QuotaExceededError
   \<and> localStorage
       (snd (addReport (ref_host_quota 256)
               (report_of ''report_3_c'' ''Pending'' ''2024-04-01T00:00:00.000Z'')
               (world_with (ref_stringify (JArr [pending_report]))))) STORAGE_KEY =
     Some (ref_stringify (JArr [pending_report]))"
  by code_simp

lemma prop_is_not_null:
  "r \<noteq> JNull \<Longrightarrow> prop_is k s r = Inr (prop_of r k = Some (JStr s))"
  by (cases r) (simp_all add: prop_is_def)

lemma prop_matches_False:
  assumes "prop_matches k (Some x) r = Inr False"
  shows "prop_of r k \<noteq> Some (JStr x)"
  using assms by (cases r) (simp_all add: prop_matches_def)

lemma prop_matches_True:
  assumes "prop_matches k (Some x) r = Inr True"
  shows "\<exists>kvs. r = JObj kvs \<and> map_of kvs k = Some (JStr x)"
  using assms by (cases r) (simp_all add: prop_matches_def)

lemma prop_matches_error:
  assumes "prop_matches k x r = Inl e"
  shows "r = JNull \<and> e = TypeError"
  using assms by (cases r) (simp_all add: prop_matches_def)

lemma findIndex_from_error:
  "findIndex_from k p xs = Inl e \<Longrightarrow> \<exists>x\<in>set xs. p x = Inl e"
  by (induction xs arbitrary: k) (auto split: sum.splits if_splits)

lemma findIndex_from_found:
  assumes "findIndex_from k p xs = Inr i" and "0 \<le> k"
  shows "if i = -1 then \<forall>x\<in>set xs. p x = Inr False
         else \<exists>n<length xs. i = k + int n \<and> p (xs ! n) = Inr True
                \<and> (\<forall>m<n. p (xs ! m) = Inr False)"
  using assms
proof (induction xs arbitrary: k)
  case Nil
  then show ?case by simp
next
  case (Cons x xs)
  from Cons.prems(1) obtain b where b: "p x = Inr b"
    by (cases "p x") auto
  show ?case
  proof (cases b)
    case True
    with b Cons.prems have "i = k" "i \<noteq> -1"
      by auto
    with b True show ?thesis
      by (auto intro!: exI [of _ 0])
  next
    case False
    with b Cons.prems(1) have rec: "findIndex_from (k + 1) p xs = Inr i"
      by simp
    from Cons.IH [OF rec] Cons.prems(2)
    have ih: "if i = -1 then \<forall>x\<in>set xs. p x = Inr False
         else \<exists>n<length xs. i = k + 1 + int n \<and> p (xs ! n) = Inr True
                \<and> (\<forall>m<n. p (xs ! m) = Inr False)"
      by simp
    show ?thesis
    proof (cases "i = -1")
      case True
      with ih b False show ?thesis by simp
    next
      case ne: False
      with ih obtain n where n: "n < length xs" "i = k + 1 + int n" "p (xs ! n) = Inr True"
          "\<forall>m<n. p (xs ! m) = Inr False"
        by auto
      have "\<forall>m<Suc n. p ((x # xs) ! m) = Inr False"
        using n(4) b False by (auto simp: nth_Cons split: nat.splits)
      with n ne show ?thesis
        by (auto intro!: exI [of _ "Suc n"])
    qed
  qed
qed

lemma map_of_put_prop:
  "map_of (put_prop k v kvs) k' = (if k' = k then Some v else map_of kvs k')"
  by (induction kvs) auto

text \<open>
  What \<^verbatim>\<open>updateReportStatus\<close> does with two strings on a world that holds a sequence of
  reports. It meets \<^verbatim>\<open>null\<close> before a report with the identifier and throws; or no
  report has the identifier and it returns; or it saves the sequence with the new status
  written into the first report that has the identifier. The storage changes in the last
  case only, and only when it takes the new text.
\<close>

lemma updateReportStatus_cases:
  assumes st: "stored h w = Some rs"
  shows "fst (updateReportStatus h (Some x) (Some s) w) = Inl TypeError
           \<and> localStorage (snd (updateReportStatus h (Some x) (Some s) w)) = localStorage w
           \<and> JNull \<in> set rs
       \<or> fst (updateReportStatus h (Some x) (Some s) w) = Inr ()
           \<and> localStorage (snd (updateReportStatus h (Some x) (Some s) w)) = localStorage w
           \<and> (\<forall>r\<in>set rs. prop_of r ''id'' \<noteq> Some (JStr x))
       \<or> (\<exists>i kvs. i < length rs \<and> rs ! i = JObj kvs \<and> map_of kvs ''id'' = Some (JStr x)
            \<and> (\<forall>j<i. prop_of (rs ! j) ''id'' \<noteq> Some (JStr x))
            \<and> updateReportStatus h (Some x) (Some s) w =
                saveReports h (JArr (rs[i := JObj (put_prop ''status'' (JStr s) kvs)])) w)"
proof -
  from getReports_stored(1,2) [OF st] obtain w1
    where g: "getReports h w = (Inr (JArr rs), w1)" and l: "localStorage w1 = localStorage w"
    by (cases "getReports h w") auto
  let ?p = "prop_matches ''id'' (Some x)"
  show ?thesis
  proof (cases "findIndex_from 0 ?p rs")
    case (Inl e)
    from findIndex_from_error [OF Inl] prop_matches_error
    have "JNull \<in> set rs" "e = TypeError"
      by blast+
    moreover from Inl g have "updateReportStatus h (Some x) (Some s) w = (Inl e, w1)"
      by (simp add: updateReportStatus_def js_bind_def js_lift_def)
    ultimately show ?thesis
      using l by simp
  next
    case (Inr i)
    show ?thesis
    proof (cases "i = -1")
      case True
      from findIndex_from_found [OF Inr] True have "\<forall>r\<in>set rs. ?p r = Inr False"
        by simp
      then have "\<forall>r\<in>set rs. prop_of r ''id'' \<noteq> Some (JStr x)"
        using prop_matches_False by blast
      moreover from Inr True g have "updateReportStatus h (Some x) (Some s) w = (Inr (), w1)"
        by (simp add: updateReportStatus_def js_bind_def js_lift_def js_return_def)
      ultimately show ?thesis
        using l by simp
    next
      case False
      from findIndex_from_found [OF Inr] False
      obtain n where n: "n < length rs" "i = int n" "?p (rs ! n) = Inr True"
          "\<forall>m<n. ?p (rs ! m) = Inr False"
        by auto
      from prop_matches_True [OF n(3)]
      obtain kvs where kvs: "rs ! n = JObj kvs" "map_of kvs ''id'' = Some (JStr x)"
        by blast
      from n(4) have before: "\<forall>j<n. prop_of (rs ! j) ''id'' \<noteq> Some (JStr x)"
        using prop_matches_False by blast
      from n(1) have "rs \<noteq> []"
        by auto
      from getReports_stored(3) [OF st this] have g': "getReports h w = (Inr (JArr rs), w)" .
      have sa: "set_status_at (JArr rs) (int n) (Some s) =
                  Inr (JArr (rs[n := JObj (put_prop ''status'' (JStr s) kvs)]))"
        using n(1) kvs(1) by simp
      have "updateReportStatus h (Some x) (Some s) w =
              saveReports h (JArr (rs[n := JObj (put_prop ''status'' (JStr s) kvs)])) w"
        using g' Inr n(2) sa False
        by (simp add: updateReportStatus_def js_bind_def js_lift_def)
      with n(1) kvs before show ?thesis
        by blast
    qed
  qed
qed

lemma updateReportStatus_first_match:
  assumes "stored h w = Some rs" and "JNull \<notin> set rs"
  shows "if \<exists>r\<in>set rs. prop_of r ''id'' = Some (JStr reportId)
     then \<exists>i r'. i < length rs
            \<and> prop_of (rs ! i) ''id'' = Some (JStr reportId)
            \<and> (\<forall>j<i. prop_of (rs ! j) ''id'' \<noteq> Some (JStr reportId))
            \<and> (\<forall>k. prop_of r' k =
                      (if k = ''status'' then Some (JStr newStatus) else prop_of (rs ! i) k))
            \<and> (if setItem_ok h (localStorage w) STORAGE_KEY (JSON_stringify h (JArr (rs[i := r'])))
               then \<exists>w'. updateReportStatus h (Some reportId) (Some newStatus) w = (Inr (), w')
                      \<and> localStorage w' =
                          (localStorage w)(STORAGE_KEY \<mapsto> JSON_stringify h (JArr (rs[i := r'])))
               else updateReportStatus h (Some reportId) (Some newStatus) w =
                      (Inl QuotaExceededError, w))
     else \<exists>w'. updateReportStatus h (Some reportId) (Some newStatus) w = (Inr (), w')
            \<and> localStorage w' = localStorage w"
proof -
  let ?u = "updateReportStatus h (Some reportId) (Some newStatus) w"
  from updateReportStatus_cases [OF assms(1), of reportId newStatus] assms(2)
  consider
    (none) "fst ?u = Inr ()" "localStorage (snd ?u) = localStorage w"
           "\<forall>r\<in>set rs. prop_of r ''id'' \<noteq> Some (JStr reportId)"
  | (found) i kvs where "i < length rs" "rs ! i = JObj kvs"
           "map_of kvs ''id'' = Some (JStr reportId)"
           "\<forall>j<i. prop_of (rs ! j) ''id'' \<noteq> Some (JStr reportId)"
           "?u = saveReports h (JArr (rs[i := JObj (put_prop ''status'' (JStr newStatus) kvs)])) w"
    by blast
  then show ?thesis
  proof cases
    case none
    then have "\<exists>w'. ?u = (Inr (), w') \<and> localStorage w' = localStorage w"
      by (cases ?u) auto
    with none(3) show ?thesis
      by simp
  next
    case found
    let ?r' = "JObj (put_prop ''status'' (JStr newStatus) kvs)"
    from found(1,2,3) have ex: "\<exists>r\<in>set rs. prop_of r ''id'' = Some (JStr reportId)"
      by (metis nth_mem prop_of.simps(1))
    have props: "\<forall>k. prop_of ?r' k =
        (if k = ''status'' then Some (JStr newStatus) else prop_of (rs ! i) k)"
      using found(2) by (simp add: map_of_put_prop)
    have sv: "if setItem_ok h (localStorage w) STORAGE_KEY (JSON_stringify h (JArr (rs[i := ?r'])))
       then \<exists>w'. ?u = (Inr (), w')
              \<and> localStorage w' =
                  (localStorage w)(STORAGE_KEY \<mapsto> JSON_stringify h (JArr (rs[i := ?r'])))
       else ?u = (Inl QuotaExceededError, w)"
      using found(5) by (simp add: saveReports_eq)
    have "\<exists>i r'. i < length rs
            \<and> prop_of (rs ! i) ''id'' = Some (JStr reportId)
            \<and> (\<forall>j<i. prop_of (rs ! j) ''id'' \<noteq> Some (JStr reportId))
            \<and> (\<forall>k. prop_of r' k =
                      (if k = ''status'' then Some (JStr newStatus) else prop_of (rs ! i) k))
            \<and> (if setItem_ok h (localStorage w) STORAGE_KEY (JSON_stringify h (JArr (rs[i := r'])))
               then \<exists>w'. ?u = (Inr (), w')
                      \<and> localStorage w' =
                          (localStorage w)(STORAGE_KEY \<mapsto> JSON_stringify h (JArr (rs[i := r'])))
               else ?u = (Inl QuotaExceededError, w))"
      using found(1,2,3,4) props sv
      by (intro exI [of _ i] exI [of _ ?r']) simp
    with ex show ?thesis
      by simp
  qed
qed

text \<open>
  C3, as the code has it. On a world that holds a sequence of reports without \<^verbatim>\<open>null\<close>:
  when some report has the identifier, the first such report gets the new status and
  keeps every other property, and all other reports stay as they are and where they are;
  this sequence is saved when the storage takes its text, and when the storage refuses it
  the error of \<^verbatim>\<open>setItem\<close> is thrown and the world is as it was. When no report has the
  identifier, the call returns and the storage is as it was.
\<close>

theorem updateReportStatus_sets_status:
  assumes "stored h w = Some rs" and "JNull \<notin> set rs"
  shows "if \<exists>r\<in>set rs. prop_of r ''id'' = Some (JStr reportId)
     then \<exists>i r'. i < length rs
            \<and> prop_of (rs ! i) ''id'' = Some (JStr reportId)
            \<and> (\<forall>j<i. prop_of (rs ! j) ''id'' \<noteq> Some (JStr reportId))
            \<and> (\<forall>k. prop_of r' k =
                      (if k = ''status'' then Some (JStr newStatus) else prop_of (rs ! i) k))
            \<and> (if setItem_ok h (localStorage w) STORAGE_KEY (JSON_stringify h (JArr (rs[i := r'])))
               then \<exists>w'. updateReportStatus h (Some reportId) (Some newStatus) w = (Inr (), w')
                      \<and> localStorage w' =
                          (localStorage w)(STORAGE_KEY \<mapsto> JSON_stringify h (JArr (rs[i := r'])))
               else updateReportStatus h (Some reportId) (Some newStatus) w =
                      (Inl QuotaExceededError, w))
     else \<exists>w'. updateReportStatus h (Some reportId) (Some newStatus) w = (Inr (), w')
            \<and> localStorage w' = localStorage w"
  using updateReportStatus_first_match [OF assms] .

theorem updateReportStatus_sets_status_witness:
  "stored ref_host (world_with (JSON_stringify ref_host (JArr two_reports))) = Some two_reports
   \<and> JNull \<notin> set two_reports
   \<and> (\<exists>r\<in>set two_reports. prop_of r ''id'' = Some (JStr ''report_2_b''))
   \<and> (\<exists>i r'. i < length two_reports
        \<and> prop_of (two_reports ! i) ''id'' = Some (JStr ''report_2_b'')
        \<and> (\<forall>j<i. prop_of (two_reports ! j) ''id'' \<noteq> Some (JStr ''report_2_b''))
        \<and> (\<forall>k. prop_of r' k =
                  (if k = ''status'' then Some (JStr ''Pending'') else prop_of (two_reports ! i) k))
        \<and> setItem_ok ref_host (localStorage (world_with (JSON_stringify ref_host (JArr two_reports))))
            STORAGE_KEY (JSON_stringify ref_host (JArr (two_reports[i := r'])))
        \<and> (\<exists>w'. updateReportStatus ref_host (Some ''report_2_b'') (Some ''Pending'')
                   (world_with (JSON_stringify ref_host (JArr two_reports))) = (Inr (), w')
              \<and> localStorage w' =
                  (localStorage (world_with (JSON_stringify ref_host (JArr two_reports))))
                    (STORAGE_KEY \<mapsto> JSON_stringify ref_host (JArr (two_reports[i := r'])))))"
proof -
  let ?w = "world_with (JSON_stringify ref_host (JArr two_reports))"
  let ?u = "updateReportStatus ref_host (Some ''report_2_b'') (Some ''Pending'') ?w"
  have "round_trips ref_host (JArr two_reports)"
    by (rule ref_host_round_trips) (simp add: two_reports_def report_of_def)
  then have st: "stored ref_host ?w = Some two_reports"
    by (rule stored_world_with)
  have nn: "JNull \<notin> set two_reports"
    by (simp add: two_reports_def report_of_def)
  have ex: "\<exists>r\<in>set two_reports. prop_of r ''id'' = Some (JStr ''report_2_b'')"
    by (simp add: two_reports_def report_of_def)
  have ok: "fst ?u = Inr ()"
    by code_simp
  from updateReportStatus_sets_status [OF st nn, of "''report_2_b''" "''Pending''"]
  obtain i r' where i: "i < length two_reports"
      "prop_of (two_reports ! i) ''id'' = Some (JStr ''report_2_b'')"
      "\<forall>j<i. prop_of (two_reports ! j) ''id'' \<noteq> Some (JStr ''report_2_b'')"
      "\<forall>k. prop_of r' k =
          (if k = ''status'' then Some (JStr ''Pending'') else prop_of (two_reports ! i) k)"
    and sv: "if setItem_ok ref_host (localStorage ?w) STORAGE_KEY
                  (JSON_stringify ref_host (JArr (two_reports[i := r'])))
       then \<exists>w'. ?u = (Inr (), w')
              \<and> localStorage w' =
                  (localStorage ?w)(STORAGE_KEY \<mapsto> JSON_stringify ref_host (JArr (two_reports[i := r'])))
       else ?u = (Inl QuotaExceededError, ?w)"
    by (simp only: ex if_True) blast
  from sv ok have "setItem_ok ref_host (localStorage ?w) STORAGE_KEY
                  (JSON_stringify ref_host (JArr (two_reports[i := r'])))"
    by (auto split: if_splits)
  with sv have "\<exists>w'. ?u = (Inr (), w')
              \<and> localStorage w' =
                  (localStorage ?w)(STORAGE_KEY \<mapsto> JSON_stringify ref_host (JArr (two_reports[i := r'])))"
    by simp
  with st nn ex i \<open>setItem_ok ref_host (localStorage ?w) STORAGE_KEY
                  (JSON_stringify ref_host (JArr (two_reports[i := r'])))\<close>
  show ?thesis
    by blast
qed

text \<open>
  C3, as the claim states it, has the new status persisted whenever a report has the
  identifier. On a storage that has room for the one report it holds and no more, the
  change of that report from \<^verbatim>\<open>Pending\<close> to \<^verbatim>\<open>In Progress\<close> makes the text four
  characters longer: \<^verbatim>\<open>updateReportStatus\<close> throws and the report stays as it was.
\<close>

theorem updateReportStatus_refused_counterexample:
  "setItem_ok (ref_host_quota (int (length (STORAGE_KEY @ ref_stringify (JArr [pending_report])))))
     (localStorage empty_world) STORAGE_KEY (ref_stringify (JArr [pending_report]))
   \<and> stored (ref_host_quota (int (length (STORAGE_KEY @ ref_stringify (JArr [pending_report])))))
       (world_with (ref_stringify (JArr [pending_report]))) = Some [pending_report]
   \<and> fst (updateReportStatus
            (ref_host_quota (int (length (STORAGE_KEY @ ref_stringify (JArr [pending_report])))))
            (Some ''report_1_a'') (Some ''In Progress'')
            (world_with (ref_stringify (JArr [pending_report])))) = Inl QuotaExceededError
   \<and> localStorage
       (snd (updateReportStatus
               (ref_host_quota (int (length (STORAGE_KEY @ ref_stringify (JArr [pending_report])))))
               (Some ''report_1_a'') (Some ''In Progress'')
               (world_with (ref_stringify (JArr [pending_report]))))) STORAGE_KEY =
     Some (ref_stringify (JArr [pending_report]))"
  by code_simp

section \<open>Status styling\<close>

text \<open>
  C10. \<^verbatim>\<open>getStatusClass\<close> gives \<^verbatim>\<open>Resolved\<close> and \<^verbatim>\<open>In Progress\<close> a class of their own
  each, and gives every other value, a status that is not known or \<^verbatim>\<open>undefined\<close>, the
  class of \<^verbatim>\<open>Pending\<close>.
\<close>

theorem getStatusClass_total:
  fixes status :: "'n json option"
  shows
  "getStatusClass (Some (JStr ''Resolved'') :: 'n json option) = ''bg-green-100 text-green-800'' \<and>
   getStatusClass (Some (JStr ''In Progress'') :: 'n json option) = ''bg-yellow-100 text-yellow-800'' \<and>
   getStatusClass (Some (JStr ''Pending'') :: 'n json option) = ''bg-red-100 text-red-800'' \<and>
   distinct [getStatusClass (Some (JStr ''Resolved'') :: 'n json option),
             getStatusClass (Some (JStr ''In Progress'') :: 'n json option),
             getStatusClass (Some (JStr ''Pending'') :: 'n json option)] \<and>
   (status \<noteq> Some (JStr ''Resolved'') \<and> status \<noteq> Some (JStr ''In Progress'') \<longrightarrow>
      getStatusClass status = getStatusClass (Some (JStr ''Pending'') :: 'n json option))"
  by (simp add: getStatusClass_def)

theorem getStatusClass_total_witness:
  "Some (JStr ''Closed'') \<noteq> Some (JStr ''Resolved'' :: int json) \<and>
   Some (JStr ''Closed'') \<noteq> Some (JStr ''In Progress'' :: int json) \<and>
   getStatusClass (Some (JStr ''Closed'' :: int json)) = ''bg-red-100 text-red-800'' \<and>
   getStatusClass (None :: int json option) = ''bg-red-100 text-red-800''"
  using getStatusClass_total [of "Some (JStr ''Closed'' :: int json)"]
        getStatusClass_total [of "None :: int json option"] by auto

section \<open>Filtering and sorting\<close>

lemma filter_js_eq:
  "JNull \<notin> set xs \<Longrightarrow>
   filter_js (prop_is k s) xs = Inr (filter (\<lambda>r. prop_of r k = Some (JStr s)) xs)"
  by (induction xs) (auto simp: prop_is_not_null)

text \<open>
  C8. Filtering a sequence of reports by a status returns the reports with exactly that
  status, each as often as the sequence holds it and in the order of the sequence; the
  dashboard's choice does the same when its filter is one of the three statuses.
\<close>

theorem filterByStatus_exact:
  assumes "JNull \<notin> set R"
  shows "filterByStatus R S = Inr (filter (\<lambda>r. prop_of r ''status'' = Some (JStr S)) R) \<and>
         (S \<in> set [''Pending'', ''In Progress'', ''Resolved''] \<longrightarrow>
            filteredReports S R = Inr (filter (\<lambda>r. prop_of r ''status'' = Some (JStr S)) R))"
  using assms by (auto simp: filterByStatus_def filteredReports_def filter_js_eq)

theorem filterByStatus_exact_witness:
  "JNull \<notin> set three_reports \<and> ''Resolved'' \<in> set [''Pending'', ''In Progress'', ''Resolved''] \<and>
   filterByStatus three_reports ''Resolved'' =
     Inr [report_of ''report_2_b'' ''Resolved'' ''2024-03-01T00:00:00.000Z''] \<and>
   filteredReports ''Resolved'' three_reports =
     Inr [report_of ''report_2_b'' ''Resolved'' ''2024-03-01T00:00:00.000Z'']"
proof -
  have nn: "JNull \<notin> set three_reports"
    by (simp add: three_reports_def report_of_def)
  have f: "filter (\<lambda>r. prop_of r ''status'' = Some (JStr ''Resolved'')) three_reports
           = [report_of ''report_2_b'' ''Resolved'' ''2024-03-01T00:00:00.000Z'']"
    by (simp add: three_reports_def report_of_def)
  from filterByStatus_exact [OF nn, of "''Resolved''"] nn f show ?thesis
    by simp
qed

lemma newestFirst_eq:
  assumes "a \<noteq> JNull" "b \<noteq> JNull" "submitted_time h a = Some ta" "submitted_time h b = Some tb"
  shows "newestFirst h a b = Inr (Some (tb - ta))"
  using assms by (cases a; cases b) (simp_all add: newestFirst_def submitted_time_def)

lemma insert_js_eq:
  assumes "JNull \<notin> set (x # ys)" "\<forall>r\<in>set (x # ys). submitted_time h r \<noteq> None"
  shows "insert_js (newestFirst h) x ys =
         Inr (insort_key (\<lambda>r. - the (submitted_time h r)) x ys)"
  using assms
proof (induction ys)
  case Nil
  then show ?case by simp
next
  case (Cons y ys)
  from Cons.prems obtain tx ty where t: "submitted_time h x = Some tx" "submitted_time h y = Some ty"
    by auto
  from Cons.prems have nn: "x \<noteq> JNull" "y \<noteq> JNull"
    by auto
  have cmp: "newestFirst h x y = Inr (Some (ty - tx))"
    using newestFirst_eq [OF nn t] .
  from Cons.prems have "insert_js (newestFirst h) x ys =
         Inr (insort_key (\<lambda>r. - the (submitted_time h r)) x ys)"
    by (intro Cons.IH) auto
  with cmp t show ?case
    by (simp add: sort_compare_def)
qed

lemma sort_js_eq:
  assumes "JNull \<notin> set xs" "\<forall>r\<in>set xs. submitted_time h r \<noteq> None"
  shows "sort_js (newestFirst h) xs = Inr (sort_key (\<lambda>r. - the (submitted_time h r)) xs)"
  using assms
proof (induction xs)
  case Nil
  then show ?case by simp
next
  case (Cons x xs)
  then have ih: "sort_js (newestFirst h) xs = Inr (sort_key (\<lambda>r. - the (submitted_time h r)) xs)"
    by simp
  have "insert_js (newestFirst h) x (sort_key (\<lambda>r. - the (submitted_time h r)) xs) =
        Inr (insort_key (\<lambda>r. - the (submitted_time h r)) x
               (sort_key (\<lambda>r. - the (submitted_time h r)) xs))"
    using Cons.prems by (intro insert_js_eq) auto
  with ih show ?case by simp
qed

lemma filter_refine:
  assumes "\<And>x. Q x \<Longrightarrow> f x = k"
    and "filter (\<lambda>x. f x = k) ys = filter (\<lambda>x. f x = k) xs"
  shows "filter Q ys = filter Q xs"
proof -
  have "filter Q zs = filter Q (filter (\<lambda>x. f x = k) zs)" for zs
    using assms(1) by (induction zs) auto
  with assms(2) show ?thesis by metis
qed

text \<open>
  C9. Sorting a sequence of reports whose \<^verbatim>\<open>submittedAt\<close> are valid dates returns the
  same reports, newest first, and keeps reports of the same time, so also reports with the
  same \<^verbatim>\<open>submittedAt\<close>, in the order they had.
\<close>

theorem sortNewestFirst_stable:
  assumes "JNull \<notin> set R" and "\<forall>r\<in>set R. submitted_time h r \<noteq> None"
  shows "\<exists>ys. sortNewestFirst h R = Inr ys
           \<and> mset ys = mset R
           \<and> sorted_wrt (\<lambda>a b. the (submitted_time h a) \<ge> the (submitted_time h b)) ys
           \<and> (\<forall>t. filter (\<lambda>r. submitted_time h r = t) ys = filter (\<lambda>r. submitted_time h r = t) R)
           \<and> (\<forall>v. filter (\<lambda>r. prop_of r ''submittedAt'' = v) ys
                  = filter (\<lambda>r. prop_of r ''submittedAt'' = v) R)"
proof -
  let ?f = "\<lambda>r. - the (submitted_time h r)"
  let ?ys = "sort_key ?f R"
  have s: "sortNewestFirst h R = Inr ?ys"
    using assms by (simp add: sortNewestFirst_def sort_js_eq)
  have m: "mset ?ys = mset R"
    by simp
  have "sorted (map ?f ?ys)"
    by (rule sorted_sort_key)
  then have o: "sorted_wrt (\<lambda>a b. the (submitted_time h a) \<ge> the (submitted_time h b)) ?ys"
    by (simp add: sorted_map)
  have st: "filter (\<lambda>r. ?f r = k) ?ys = filter (\<lambda>r. ?f r = k) R" for k
    by (rule sort_key_stable)
  have t: "filter (\<lambda>r. submitted_time h r = t) ?ys = filter (\<lambda>r. submitted_time h r = t) R" for t
    by (rule filter_refine [where f = ?f and k = "- the t", OF _ st]) auto
  have v: "filter (\<lambda>r. prop_of r ''submittedAt'' = v) ?ys
         = filter (\<lambda>r. prop_of r ''submittedAt'' = v) R" for v
    by (rule filter_refine [where f = ?f and k = "- the (Date_getTime h v)", OF _ st])
       (auto simp: submitted_time_def)
  from s m o t v show ?thesis
    by blast
qed

theorem sortNewestFirst_stable_witness:
  "JNull \<notin> set three_reports \<and>
   list_all (\<lambda>r. submitted_time ref_host r \<noteq> None) three_reports \<and>
   sortNewestFirst ref_host three_reports =
     Inr [report_of ''report_2_b'' ''Resolved'' ''2024-03-01T00:00:00.000Z'',
          report_of ''report_1_a'' ''Pending'' ''2024-01-01T00:00:00.000Z'',
          report_of ''report_3_c'' ''In Progress'' ''2024-01-01T00:00:00.000Z''] \<and>
   (\<exists>ys. sortNewestFirst ref_host three_reports = Inr ys \<and>
      filter (\<lambda>r. prop_of r ''submittedAt'' = Some (JStr ''2024-01-01T00:00:00.000Z'')) ys =
      filter (\<lambda>r. prop_of r ''submittedAt'' = Some (JStr ''2024-01-01T00:00:00.000Z'')) three_reports)"
proof -
  have nn: "JNull \<notin> set three_reports"
    by (simp add: three_reports_def report_of_def)
  have tm: "\<forall>r\<in>set three_reports. submitted_time ref_host r \<noteq> None"
    by code_simp
  have ev: "sortNewestFirst ref_host three_reports =
     Inr [report_of ''report_2_b'' ''Resolved'' ''2024-03-01T00:00:00.000Z'',
          report_of ''report_1_a'' ''Pending'' ''2024-01-01T00:00:00.000Z'',
          report_of ''report_3_c'' ''In Progress'' ''2024-01-01T00:00:00.000Z'']"
    by code_simp
  from tm have tl: "list_all (\<lambda>r. submitted_time ref_host r \<noteq> None) three_reports"
    by (simp add: list_all_iff)
  from sortNewestFirst_stable [OF nn tm] nn tl ev show ?thesis
    by blast
qed

section \<open>Submitting a report\<close>

lemma submit_try_invalid:
  assumes "issue_category f = [] \<or> location f = [] \<or> photo_upload f = []"
  shows "submit_try h env f w =
         (Inl (Error ''Please fill out all required fields and add a photo.''), w)"
  using assms by (auto simp: submit_try_def js_throw_def Let_def split: list.splits)

text \<open>
  C6. When the category or the location is empty or no file is chosen, the handler ends in
  the \<^verbatim>\<open>catch\<close> block with the error "Please fill out all required fields and add a
  photo.": the world is as it was, the message shows the error, the button is enabled
  again and the fields keep what was typed.
\<close>

theorem submit_missing_field:
  assumes "issue_category (report_form u) = [] \<or> location (report_form u) = []
           \<or> photo_upload (report_form u) = []"
  shows "\<exists>u'. submit_handler h env u w =
            (Failed (Error ''Please fill out all required fields and add a photo.''), u', w)
          \<and> formMessage_textContent u' =
              ''Error: Please fill out all required fields and add a photo.''
          \<and> \<not> formMessage_hidden u'
          \<and> \<not> submitBtn_disabled u'
          \<and> submitBtn_textContent u' = ''Submit Report''
          \<and> report_form u' = report_form u"
  using assms
  by (simp add: submit_handler_def submit_try_invalid show_failure_def error_message_def)

theorem submit_missing_field_witness:
  "(issue_category (report_form (idle_ui (pothole_form\<lparr>location := []\<rparr>))) = []
    \<or> location (report_form (idle_ui (pothole_form\<lparr>location := []\<rparr>))) = []
    \<or> photo_upload (report_form (idle_ui (pothole_form\<lparr>location := []\<rparr>))) = []) \<and>
   (\<exists>u'. submit_handler ref_host env0 (idle_ui (pothole_form\<lparr>location := []\<rparr>)) empty_world =
            (Failed (Error ''Please fill out all required fields and add a photo.''), u', empty_world)
          \<and> formMessage_textContent u' =
              ''Error: Please fill out all required fields and add a photo.''
          \<and> \<not> submitBtn_disabled u')"
proof -
  have hyp: "issue_category (report_form (idle_ui (pothole_form\<lparr>location := []\<rparr>))) = []
    \<or> location (report_form (idle_ui (pothole_form\<lparr>location := []\<rparr>))) = []
    \<or> photo_upload (report_form (idle_ui (pothole_form\<lparr>location := []\<rparr>))) = []"
    by (simp add: idle_ui_def)
  from submit_missing_field [OF hyp, of ref_host env0 empty_world] hyp show ?thesis
    by blast
qed

lemma split_at_unique:
  "c \<notin> set a \<Longrightarrow> c \<notin> set b \<Longrightarrow> a @ c # x = b @ c # y \<Longrightarrow> a = b \<and> x = y"
proof (induction a arbitrary: b)
  case Nil
  then show ?case by (cases b) auto
next
  case (Cons z a)
  then show ?case by (cases b) auto
qed

lemma generateId_inj:
  "generateId t x = generateId t' x' \<longleftrightarrow> t = t' \<and> take 7 (drop 2 x) = take 7 (drop 2 x')"
proof
  assume eq: "generateId t x = generateId t' x'"
  have us: "CHR ''_'' \<notin> set (show_int i)" for i
    using show_int_chars [of "CHR ''_''" i] by (auto simp: is_digit_def)
  from eq have "show_int t @ CHR ''_'' # take 7 (drop 2 x) = show_int t' @ CHR ''_'' # take 7 (drop 2 x')"
    by (simp add: generateId_def)
  from split_at_unique [OF us us this] show "t = t' \<and> take 7 (drop 2 x) = take 7 (drop 2 x')"
    by (auto dest: show_int_inj)
next
  assume "t = t' \<and> take 7 (drop 2 x) = take 7 (drop 2 x')"
  then show "generateId t x = generateId t' x'"
    by (simp add: generateId_def)
qed


text \<open>
  C5. The new report has the status \<^verbatim>\<open>Pending\<close> and the clock reading as
  \<^verbatim>\<open>submittedAt\<close>, but its identifier is made from the clock and the random text alone:
  the store is not looked at. On a world that holds a report made at the clock reading
  1700000000123 with the random text \<^verbatim>\<open>0.4fzyo82mvyr\<close>, a submission at the same reading
  and with the same random text succeeds, and the storage then holds two reports with
  the identifier \<^verbatim>\<open>report_1700000000123_4fzyo82\<close>.
\<close>

theorem submit_duplicate_id:
  "stored ref_host dup_world =
     Some [report_of ''report_1700000000123_4fzyo82'' ''Resolved'' ''2023-11-14T22:13:20.123Z'']
   \<and> fst (submit_handler ref_host env0 (idle_ui pothole_form) dup_world) = Succeeded
   \<and> localStorage (snd (snd (submit_handler ref_host env0 (idle_ui pothole_form) dup_world)))
       STORAGE_KEY =
     Some (ref_stringify
       (JArr [report_of ''report_1700000000123_4fzyo82'' ''Resolved'' ''2023-11-14T22:13:20.123Z'',
              report_of ''report_1700000000123_4fzyo82'' ''Pending'' ''2023-11-14T22:13:20.123Z'']))"
  by code_simp

section \<open>Steps of the system\<close>



















text \<open>
  The premise that the reports are drawn as written cannot be dropped. The values of a
  report go into the markup as they are, so a description can bring a button of class
  \<^verbatim>\<open>status-btn\<close> with any \<^verbatim>\<open>data-status\<close>; the click handler takes it as one of its own.
\<close>

lemma marked_up_report_step:
  "\<not> drawn_as_written ref_host marked_up_report
   \<and> offered ref_host page_static [marked_up_report]
       (StatusClick [(''class'', ''status-btn''), (''data-id'', ''report_1_a''),
                     (''data-status'', ''Closed'')])
   \<and> map (\<lambda>r. prop_of r ''status'')
       (the (stored ref_host
          (perform ref_host
             (StatusClick [(''class'', ''status-btn''), (''data-id'', ''report_1_a''),
                           (''data-status'', ''Closed'')])
             (world_with (ref_stringify (JArr [marked_up_report]))))))
     = [Some (JStr ''Closed'')]"
  by code_simp

end
